theory Spec2Isabelle
  imports Main
begin

section \<open>Data model\<close>

text \<open>
  The router of \<^verbatim>\<open>chef\<close> is a radix tree of heap-allocated nodes that point to their
  children and to their parent. Nodes are mutated in place by \<^verbatim>\<open>node.insert\<close>, so the
  model keeps an explicit store: node addresses are natural numbers, a pointer is a
  \<open>nat option\<close> (\<open>None\<close> is \<^verbatim>\<open>nil\<close>). Handler chains are Go slices
  (\<^verbatim>\<open>[]Handler\<close>); a slice value is a reference to a backing array together with its
  length, and the backing arrays live in the same store.
\<close>

datatype kind = skind | pkind | akind

text \<open>A handler is an opaque function value; \<open>NilHandler\<close> is the zero value \<^verbatim>\<open>nil\<close>.\<close>

datatype Handler = NilHandler | NotFoundHandler | MethodNotAllowedHandler | UserHandler nat

datatype error = Panic string | IndexOutOfRange | NilPointerDereference

text \<open>
  A non-nil slice: the address of its backing array and its length. Every handler slice
  of the program starts at index 0 of its array, so its capacity is the size of the array.
  A \<^verbatim>\<open>[]Handler\<close> is a \<open>slice option\<close>, \<open>None\<close> being the nil slice.
\<close>

record slice =
  arr :: nat
  len :: nat

record methodHandler =
  connect :: "slice option"
  delete :: "slice option"
  get :: "slice option"
  head :: "slice option"
  options :: "slice option"
  patch :: "slice option"
  post :: "slice option"
  put :: "slice option"
  trace :: "slice option"

record node =
  kind :: kind
  label :: char
  prefix :: string
  parent :: "nat option"
  children :: "nat list"
  ppath :: string
  pnames :: "string list"
  methodHandler :: methodHandler

record heap =
  nodes :: "nat \<Rightarrow> node"
  nnodes :: nat
  arrays :: "nat \<Rightarrow> Handler list"
  narrays :: nat

definition CONNECT :: string where "CONNECT = ''CONNECT''"
definition DELETE :: string where "DELETE = ''DELETE''"
definition GET :: string where "GET = ''GET''"
definition HEAD :: string where "HEAD = ''HEAD''"
definition OPTIONS :: string where "OPTIONS = ''OPTIONS''"
definition PATCH :: string where "PATCH = ''PATCH''"
definition POST :: string where "POST = ''POST''"
definition PUT :: string where "PUT = ''PUT''"
definition TRACE :: string where "TRACE = ''TRACE''"

definition methods :: "string list" where
  "methods = [CONNECT, DELETE, GET, HEAD, OPTIONS, PATCH, POST, PUT, TRACE]"

text \<open>\<^verbatim>\<open>new(methodHandler)\<close>: every field is the nil slice.\<close>

definition new_methodHandler :: methodHandler where
  "new_methodHandler =
     \<lparr>connect = None, delete = None, get = None, head = None, options = None,
      patch = None, post = None, put = None, trace = None\<rparr>"

text \<open>The zero value of \<^verbatim>\<open>node\<close> with a fresh handler table, as built by \<^verbatim>\<open>NewRouter\<close>.\<close>

definition zero_node :: node where
  "zero_node =
     \<lparr>kind = skind, label = CHR 0x00, prefix = [], parent = None, children = [],
      ppath = [], pnames = [], methodHandler = new_methodHandler\<rparr>"

section \<open>Slices of handlers\<close>

text \<open>The elements of a slice, read from the store.\<close>

definition elems :: "heap \<Rightarrow> slice option \<Rightarrow> Handler list" where
  "elems H s = (case s of None \<Rightarrow> [] | Some sl \<Rightarrow> take (len sl) (arrays H (arr sl)))"

definition cap :: "heap \<Rightarrow> slice option \<Rightarrow> nat" where
  "cap H s = (case s of None \<Rightarrow> 0 | Some sl \<Rightarrow> length (arrays H (arr sl)))"

text \<open>
  The composite literal \<^verbatim>\<open>[]Handler{x, ...}\<close> allocates a fresh array of exactly the
  elements given.
\<close>

definition slice_lit :: "heap \<Rightarrow> Handler list \<Rightarrow> slice option \<times> heap" where
  "slice_lit H xs =
     (Some \<lparr>arr = narrays H, len = length xs\<rparr>,
      H\<lparr>arrays := (arrays H)(narrays H := xs), narrays := Suc (narrays H)\<rparr>)"

text \<open>
  The built-in \<^verbatim>\<open>append(s, xs...)\<close>. When the elements fit into the capacity of
  \<open>s\<close>, they are written into the backing array of \<open>s\<close>, behind its length, and the
  result shares that array. Otherwise a new array is allocated and the elements of
  \<open>s\<close> are copied. The capacity of a new array is chosen by the Go runtime, not by the
  program: it is the parameter \<open>grow\<close> (old capacity, needed length), and the array never
  is smaller than needed.
\<close>

definition append_slice ::
  "(nat \<Rightarrow> nat \<Rightarrow> nat) \<Rightarrow> heap \<Rightarrow> slice option \<Rightarrow> Handler list \<Rightarrow> slice option \<times> heap" where
  "append_slice grow H s xs =
     (let m = length (elems H s) + length xs in
      if m \<le> cap H s then
        (case s of
           None \<Rightarrow> (None, H)
         | Some sl \<Rightarrow>
             (Some (sl\<lparr>len := m\<rparr>),
              H\<lparr>arrays := (arrays H)(arr sl :=
                   take (len sl) (arrays H (arr sl)) @ xs @ drop m (arrays H (arr sl)))\<rparr>))
      else
        (Some \<lparr>arr = narrays H, len = m\<rparr>,
         H\<lparr>arrays := (arrays H)(narrays H :=
                elems H s @ xs @ replicate (grow (cap H s) m - m) NilHandler),
           narrays := Suc (narrays H)\<rparr>))"

section \<open>Nodes\<close>

text \<open>\<^verbatim>\<open>newNode\<close> reads \<^verbatim>\<open>pre[0]\<close>, which panics on the empty string.\<close>

definition newNode ::
  "kind \<Rightarrow> string \<Rightarrow> nat option \<Rightarrow> nat list \<Rightarrow> methodHandler \<Rightarrow> string \<Rightarrow> string list
     \<Rightarrow> error + node" where
  "newNode t pre p c mh pp pn =
     (case pre of
        [] \<Rightarrow> Inl IndexOutOfRange
      | b # _ \<Rightarrow>
          Inr \<lparr>kind = t, label = b, prefix = pre, parent = p, children = c,
               ppath = pp, pnames = pn, methodHandler = mh\<rparr>)"

text \<open>Allocation of a node: the next free address.\<close>

definition alloc_node :: "heap \<Rightarrow> node \<Rightarrow> nat \<times> heap" where
  "alloc_node H v = (nnodes H, H\<lparr>nodes := (nodes H)(nnodes H := v), nnodes := Suc (nnodes H)\<rparr>)"

definition set_node :: "heap \<Rightarrow> nat \<Rightarrow> node \<Rightarrow> heap" where
  "set_node H a v = H\<lparr>nodes := (nodes H)(a := v)\<rparr>"

definition addChild :: "node \<Rightarrow> nat \<Rightarrow> node" where
  "addChild nd c = nd\<lparr>children := children nd @ [c]\<rparr>"

text \<open>The three child searches return the first child in the order of \<^verbatim>\<open>children\<close>.\<close>

definition findChild :: "heap \<Rightarrow> nat \<Rightarrow> char \<Rightarrow> kind \<Rightarrow> nat option" where
  "findChild H a l t =
     List.find (\<lambda>c. label (nodes H c) = l \<and> kind (nodes H c) = t) (children (nodes H a))"

definition findChildWithLabel :: "heap \<Rightarrow> nat \<Rightarrow> char \<Rightarrow> nat option" where
  "findChildWithLabel H a l =
     List.find (\<lambda>c. label (nodes H c) = l) (children (nodes H a))"

definition findChildByKind :: "heap \<Rightarrow> nat \<Rightarrow> kind \<Rightarrow> nat option" where
  "findChildByKind H a t =
     List.find (\<lambda>c. kind (nodes H c) = t) (children (nodes H a))"

text \<open>
  \<^verbatim>\<open>addHandler\<close> is a switch over the nine verbs with no default case: any other
  method token leaves the table as it is.
\<close>

definition addHandler :: "string \<Rightarrow> slice option \<Rightarrow> node \<Rightarrow> node" where
  "addHandler method h nd =
     (let mh = methodHandler nd in
      if method = GET then nd\<lparr>methodHandler := mh\<lparr>get := h\<rparr>\<rparr>
      else if method = POST then nd\<lparr>methodHandler := mh\<lparr>post := h\<rparr>\<rparr>
      else if method = PUT then nd\<lparr>methodHandler := mh\<lparr>put := h\<rparr>\<rparr>
      else if method = DELETE then nd\<lparr>methodHandler := mh\<lparr>delete := h\<rparr>\<rparr>
      else if method = PATCH then nd\<lparr>methodHandler := mh\<lparr>patch := h\<rparr>\<rparr>
      else if method = OPTIONS then nd\<lparr>methodHandler := mh\<lparr>options := h\<rparr>\<rparr>
      else if method = HEAD then nd\<lparr>methodHandler := mh\<lparr>head := h\<rparr>\<rparr>
      else if method = CONNECT then nd\<lparr>methodHandler := mh\<lparr>connect := h\<rparr>\<rparr>
      else if method = TRACE then nd\<lparr>methodHandler := mh\<lparr>trace := h\<rparr>\<rparr>
      else nd)"

definition findHandler :: "string \<Rightarrow> node \<Rightarrow> slice option" where
  "findHandler method nd =
     (let mh = methodHandler nd in
      if method = GET then get mh
      else if method = POST then post mh
      else if method = PUT then put mh
      else if method = DELETE then delete mh
      else if method = PATCH then patch mh
      else if method = OPTIONS then options mh
      else if method = HEAD then head mh
      else if method = CONNECT then connect mh
      else if method = TRACE then trace mh
      else None)"

text \<open>
  \<^verbatim>\<open>checkMethodNotAllowed\<close>: a one-element chain, freshly allocated, that holds the
  method-not-allowed handler when the node has a chain for some verb and the not-found
  handler otherwise.
\<close>

definition checkMethodNotAllowed :: "heap \<Rightarrow> node \<Rightarrow> slice option \<times> heap" where
  "checkMethodNotAllowed H nd =
     (if \<exists>m \<in> set methods. findHandler m nd \<noteq> None
      then slice_lit H [MethodNotAllowedHandler]
      else slice_lit H [NotFoundHandler])"

section \<open>Insertion\<close>

text \<open>The length of the longest common prefix, as the \<^verbatim>\<open>for\<close> loop of the source counts it.\<close>

fun lcp :: "string \<Rightarrow> string \<Rightarrow> nat" where
  "lcp (a # as) (b # bs) = (if a = b then Suc (lcp as bs) else 0)"
| "lcp _ _ = 0"

text \<open>
  The loop of \<^verbatim>\<open>node.insert\<close>. \<open>a\<close> is the current node \<^verbatim>\<open>n\<close>; the four branches
  are those of the source, in its order. The loop runs again only in the third branch,
  on a shorter \<open>search\<close>.
\<close>

function insert_loop ::
  "heap \<Rightarrow> nat \<Rightarrow> string \<Rightarrow> string \<Rightarrow> slice option \<Rightarrow> kind \<Rightarrow> string \<Rightarrow> string list
     \<Rightarrow> error + heap" where
  "insert_loop H a method search h t pp pn =
     (let nd = nodes H a;
          sl = length search;
          pl = length (prefix nd);
          l = lcp search (prefix nd)
      in
      if l = 0 then
        (case search of
           [] \<Rightarrow> Inl IndexOutOfRange
         | s0 # _ \<Rightarrow>
             let nd1 = nd\<lparr>label := s0, prefix := search\<rparr>;
                 nd2 = (if h \<noteq> None
                        then (addHandler method h (nd1\<lparr>kind := t\<rparr>))\<lparr>ppath := pp, pnames := pn\<rparr>
                        else nd1)
             in Inr (set_node H a nd2))
      else if l < pl then
        (case newNode (kind nd) (drop l (prefix nd)) (Some a) (children nd)
                (methodHandler nd) (ppath nd) (pnames nd) of
           Inl e \<Rightarrow> Inl e
         | Inr nNode \<Rightarrow>
             let (c1, H1) = alloc_node H nNode;
                 nd1 = nd\<lparr>kind := skind, label := hd (prefix nd), prefix := take l (prefix nd),
                          children := [], methodHandler := new_methodHandler,
                          ppath := [], pnames := []\<rparr>;
                 nd2 = addChild nd1 c1
             in
             if l = sl then
               Inr (set_node H1 a
                      ((addHandler method h (nd2\<lparr>kind := t\<rparr>))\<lparr>ppath := pp, pnames := pn\<rparr>))
             else
               (case newNode t (drop l search) (Some a) [] new_methodHandler pp pn of
                  Inl e \<Rightarrow> Inl e
                | Inr nNode2 \<Rightarrow>
                    let (c2, H2) = alloc_node H1 (addHandler method h nNode2)
                    in Inr (set_node H2 a (addChild nd2 c2))))
      else if l < sl then
        (let search' = drop l search in
         case findChildWithLabel H a (hd search') of
           Some c \<Rightarrow> insert_loop H c method search' h t pp pn
         | None \<Rightarrow>
             (case newNode t search' (Some a) [] new_methodHandler pp pn of
                Inl e \<Rightarrow> Inl e
              | Inr nNode \<Rightarrow>
                  let (c1, H1) = alloc_node H (addHandler method h nNode)
                  in Inr (set_node H1 a (addChild nd c1))))
      else
        (if h \<noteq> None
         then Inr (set_node H a
                ((addHandler method h nd)
                   \<lparr>ppath := pp,
                    pnames := (if length (pnames nd) = 0 then pn else pnames nd)\<rparr>))
         else Inr H))"
  by pat_completeness auto
termination
  by (relation "measure (\<lambda>(H, a, method, search, h, t, pp, pn). length search)") auto

declare insert_loop.simps [simp del]

text \<open>\<^verbatim>\<open>node.insert\<close>: the receiver may be \<^verbatim>\<open>nil\<close>, which panics.\<close>

definition node_insert ::
  "heap \<Rightarrow> nat option \<Rightarrow> string \<Rightarrow> string \<Rightarrow> slice option \<Rightarrow> kind \<Rightarrow> string \<Rightarrow> string list
     \<Rightarrow> error + heap" where
  "node_insert H n method path' h t pp pn =
     (case n of
        None \<Rightarrow> Inl (Panic ''chef: invalid method'')
      | Some a \<Rightarrow> insert_loop H a method path' h t pp pn)"

section \<open>Lookup\<close>

text \<open>
  The part of the request context that the router reads and writes. \<open>c_params\<close> is the
  map \<^verbatim>\<open>params\<close> of the source, \<open>c_nextIndex\<close> the cursor \<^verbatim>\<open>nextIndex\<close>.
\<close>

record ctx =
  c_path :: string
  c_pnames :: "string list"
  c_pvalues :: "string list"
  c_params :: "string \<Rightarrow> string option"
  c_handlers :: "slice option"
  c_nextIndex :: int

text \<open>An indexed store into a slice panics when the index is out of range.\<close>

definition slice_store :: "'a list \<Rightarrow> int \<Rightarrow> 'a \<Rightarrow> error + 'a list" where
  "slice_store xs i v =
     (if 0 \<le> i \<and> i < int (length xs) then Inr (xs[nat i := v]) else Inl IndexOutOfRange)"

text \<open>
  \<^verbatim>\<open>node.find\<close> is a loop with the labels \<^verbatim>\<open>Param\<close>, \<^verbatim>\<open>Any\<close> and \<^verbatim>\<open>End\<close>.
  \<open>find_loop\<close> is that loop: \<open>pc\<close> says where control is (the head of the loop or one of
  the two labels inside it), and the remaining arguments are the local variables
  \<^verbatim>\<open>n\<close>, \<^verbatim>\<open>search\<close>, \<^verbatim>\<open>nc\<close>, \<^verbatim>\<open>nk\<close>, \<^verbatim>\<open>nn\<close>, \<^verbatim>\<open>ns\<close> and \<^verbatim>\<open>pvalues\<close>. The loop
  is left by \<^verbatim>\<open>goto End\<close> (\<open>AtEnd\<close>), by a \<^verbatim>\<open>return\<close> (\<open>NotFound\<close>) or by a panic.
  A run that never leaves the loop has the value \<open>None\<close>.
\<close>

datatype pc = AtLoop | AtParam | AtAny

datatype exit = AtEnd "nat option" "string list" | NotFound "string list"

text \<open>
  One pass through a block of the loop either jumps (\<open>Goto\<close>, with the new values of
  the local variables) or leaves the loop.
\<close>

datatype step =
  Goto pc "nat option" string nat kind "nat option" string "string list"
| Exit "error + exit"

text \<open>
  From the head of the loop to the label \<^verbatim>\<open>Param\<close>: the prefix of the current node is
  matched against \<open>search\<close> (a node with label \<^verbatim>\<open>':'\<close> matches without consuming), and
  a static child with the next byte as its label is entered. On a mismatch the search
  goes back to the saved node \<open>nn\<close>.
\<close>

definition step_Loop ::
  "heap \<Rightarrow> nat option \<Rightarrow> string \<Rightarrow> nat \<Rightarrow> kind \<Rightarrow> nat option \<Rightarrow> string \<Rightarrow> string list \<Rightarrow> step" where
  "step_Loop H n search nc nk nn ns pvalues =
     (if search = [] then Exit (Inr (AtEnd n pvalues))
      else
        (case n of
           None \<Rightarrow> Exit (Inl NilPointerDereference)
         | Some a \<Rightarrow>
             (let pl = (if label (nodes H a) \<noteq> CHR '':'' then length (prefix (nodes H a)) else 0);
                  l = (if label (nodes H a) \<noteq> CHR '':'' then lcp search (prefix (nodes H a)) else 0)
              in
              if l = pl then
                (if drop l search = [] then Exit (Inr (AtEnd n pvalues))
                 else
                   (case findChild H a (hd (drop l search)) skind of
                      Some child \<Rightarrow>
                        (if prefix (nodes H a) = [] then Exit (Inl IndexOutOfRange)
                         else if last (prefix (nodes H a)) = CHR ''/''
                         then Goto AtLoop (Some child) (drop l search) nc
                                pkind (Some a) (drop l search) pvalues
                         else Goto AtLoop (Some child) (drop l search) nc nk nn ns pvalues)
                    | None \<Rightarrow> Goto AtParam n (drop l search) nc nk nn ns pvalues))
              else if nk = pkind then Goto AtParam nn ns nc nk nn ns pvalues
              else if nk = akind then Goto AtAny nn ns nc nk nn ns pvalues
              else Exit (Inr (NotFound pvalues)))))"

text \<open>
  The label \<^verbatim>\<open>Param\<close>: a parameter child takes the bytes of \<open>search\<close> before the next
  \<^verbatim>\<open>'/'\<close> into slot \<open>nc\<close>. When all slots are taken, the source says \<^verbatim>\<open>continue\<close>.
\<close>

definition step_Param ::
  "heap \<Rightarrow> nat option \<Rightarrow> string \<Rightarrow> nat \<Rightarrow> kind \<Rightarrow> nat option \<Rightarrow> string \<Rightarrow> string list \<Rightarrow> step" where
  "step_Param H n search nc nk nn ns pvalues =
     (case n of
        None \<Rightarrow> Exit (Inl NilPointerDereference)
      | Some a \<Rightarrow>
          (case findChildByKind H a pkind of
             Some child \<Rightarrow>
               (if length pvalues = nc then Goto AtLoop n search nc nk nn ns pvalues
                else if prefix (nodes H a) = [] then Exit (Inl IndexOutOfRange)
                else
                  (case slice_store pvalues (int nc) (takeWhile (\<lambda>c. c \<noteq> CHR ''/'') search) of
                     Inl e \<Rightarrow> Exit (Inl e)
                   | Inr pvalues' \<Rightarrow>
                       (if last (prefix (nodes H a)) = CHR ''/''
                        then Goto AtLoop (Some child)
                               (dropWhile (\<lambda>c. c \<noteq> CHR ''/'') search) (nc + 1)
                               akind (Some a) search pvalues'
                        else Goto AtLoop (Some child)
                               (dropWhile (\<lambda>c. c \<noteq> CHR ''/'') search) (nc + 1)
                               nk nn ns pvalues')))
           | None \<Rightarrow> Goto AtAny n search nc nk nn ns pvalues))"

text \<open>
  The label \<^verbatim>\<open>Any\<close>: a catch-all child takes all of \<open>search\<close> and the loop is left for
  \<^verbatim>\<open>End\<close>. Without such a child the search goes back to \<open>nn\<close>, and \<open>nn\<close> becomes the
  parent of that node.
\<close>

definition step_Any ::
  "heap \<Rightarrow> nat option \<Rightarrow> string \<Rightarrow> nat \<Rightarrow> kind \<Rightarrow> nat option \<Rightarrow> string \<Rightarrow> string list \<Rightarrow> step" where
  "step_Any H n search nc nk nn ns pvalues =
     (case n of
        None \<Rightarrow> Exit (Inl NilPointerDereference)
      | Some a \<Rightarrow>
          (case findChildByKind H a akind of
             None \<Rightarrow>
               (case nn of
                  Some b \<Rightarrow>
                    (if nk = pkind
                     then Goto AtParam (Some b) ns nc nk (parent (nodes H b)) ns pvalues
                     else if nk = akind
                     then Goto AtAny (Some b) ns nc nk (parent (nodes H b)) ns pvalues
                     else Exit (Inr (NotFound pvalues)))
                | None \<Rightarrow> Exit (Inr (NotFound pvalues)))
           | Some b \<Rightarrow>
               (case (if 0 < length pvalues
                      then slice_store pvalues (int (length (pnames (nodes H b))) - 1) search
                      else Inr pvalues) of
                  Inl e \<Rightarrow> Exit (Inl e)
                | Inr pvalues1 \<Rightarrow>
                    (case (if length pvalues1 = length (pnames (nodes H b))
                           then slice_store pvalues1 (int (length (pnames (nodes H b))) - 1) search
                           else Inr pvalues1) of
                       Inl e \<Rightarrow> Exit (Inl e)
                     | Inr pvalues2 \<Rightarrow> Exit (Inr (AtEnd (Some b) pvalues2))))))"

definition find_step ::
  "heap \<Rightarrow> pc \<Rightarrow> nat option \<Rightarrow> string \<Rightarrow> nat \<Rightarrow> kind \<Rightarrow> nat option \<Rightarrow> string \<Rightarrow> string list
     \<Rightarrow> step" where
  "find_step H pc n search nc nk nn ns pvalues =
     (case pc of
        AtLoop \<Rightarrow> step_Loop H n search nc nk nn ns pvalues
      | AtParam \<Rightarrow> step_Param H n search nc nk nn ns pvalues
      | AtAny \<Rightarrow> step_Any H n search nc nk nn ns pvalues)"

partial_function (option) find_loop ::
  "heap \<Rightarrow> pc \<Rightarrow> nat option \<Rightarrow> string \<Rightarrow> nat \<Rightarrow> kind \<Rightarrow> nat option \<Rightarrow> string \<Rightarrow> string list
     \<Rightarrow> (error + exit) option" where
  "find_loop H pc n search nc nk nn ns pvalues =
     (case find_step H pc n search nc nk nn ns pvalues of
        Exit r \<Rightarrow> Some r
      | Goto pc' n' search' nc' nk' nn' ns' pvalues' \<Rightarrow>
          find_loop H pc' n' search' nc' nk' nn' ns' pvalues')"

declare find_loop.simps [code]

text \<open>
  The code behind the label \<^verbatim>\<open>End\<close>. \<open>pvalues\<close> is the slice that \<^verbatim>\<open>find\<close> took from the
  context and shares with it, so what the loop wrote is in the context.
\<close>

definition find_End ::
  "heap \<Rightarrow> string \<Rightarrow> nat option \<Rightarrow> string list \<Rightarrow> ctx \<Rightarrow> error + heap \<times> ctx" where
  "find_End H method n pvalues c =
     (case n of
        None \<Rightarrow> Inl NilPointerDereference
      | Some a \<Rightarrow>
          (let nd = nodes H a;
               c1 = c\<lparr>c_handlers := findHandler method nd, c_path := ppath nd,
                      c_pnames := pnames nd, c_pvalues := pvalues\<rparr>
           in
           if c_handlers c1 = None then
             (let (hs, H1) = checkMethodNotAllowed H nd;
                  c2 = c1\<lparr>c_handlers := hs\<rparr>
              in
              case findChildByKind H1 a akind of
                None \<Rightarrow> Inr (H1, c2)
              | Some b \<Rightarrow>
                  (let nb = nodes H1 b;
                       (hs', H2) = (case findHandler method nb of
                                      Some s \<Rightarrow> (Some s, H1)
                                    | None \<Rightarrow> checkMethodNotAllowed H1 nb);
                       c3 = c2\<lparr>c_handlers := hs', c_path := ppath nb, c_pnames := pnames nb\<rparr>
                   in
                   case slice_store pvalues (int (length (pnames nb)) - 1) [] of
                     Inl e \<Rightarrow> Inl e
                   | Inr pvalues' \<Rightarrow> Inr (H2, c3\<lparr>c_pvalues := pvalues'\<rparr>)))
           else Inr (H, c1)))"

text \<open>
  \<^verbatim>\<open>node.find\<close>. The result is \<open>None\<close> when the loop does not end, \<open>Some (Inl e)\<close> when
  it panics, and the store and the context otherwise. A \<^verbatim>\<open>return\<close> from inside the loop
  leaves the handlers of the context as they were.
\<close>

definition node_find ::
  "heap \<Rightarrow> nat option \<Rightarrow> string \<Rightarrow> string \<Rightarrow> ctx \<Rightarrow> (error + heap \<times> ctx) option" where
  "node_find H n method path' c =
     (let c1 = c\<lparr>c_path := path'\<rparr> in
      case find_loop H AtLoop n path' 0 skind None [] (c_pvalues c1) of
        None \<Rightarrow> None
      | Some (Inl e) \<Rightarrow> Some (Inl e)
      | Some (Inr (NotFound pv)) \<Rightarrow> Some (Inr (H, c1\<lparr>c_pvalues := pv\<rparr>))
      | Some (Inr (AtEnd n' pv)) \<Rightarrow> Some (find_End H method n' pv c1))"

section \<open>The router\<close>

text \<open>
  The router owns the root of the tree, the application-wide middlewares, the
  after-handlers and the counter \<^verbatim>\<open>maxParam\<close>. \<open>heap\<close> is the store the pointers and
  slices of the router refer to.
\<close>

record router =
  heap :: heap
  tree :: "nat option"
  middlewares :: "slice option"
  after :: "slice option"
  maxParam :: nat

text \<open>\<^verbatim>\<open>NewRouter\<close>: a root node with a fresh handler table, at address 0.\<close>

definition NewRouter :: router where
  "NewRouter =
     \<lparr>heap = \<lparr>nodes = (\<lambda>_. zero_node), nnodes = 1, arrays = (\<lambda>_. []), narrays = 0\<rparr>,
      tree = Some 0, middlewares = None, after = None, maxParam = 0\<rparr>"

text \<open>
  Modelled from the spec: \<^verbatim>\<open>Router.insert\<close>, which \<^verbatim>\<open>Router.add\<close> calls, is not among
  the sources. The spec says of insertion that the method token must be one of the known
  HTTP verbs and that an unknown token is a fatal registration error, that the parameter
  storage is sized to the largest number of parameter names over all routes, and that
  insertion is the walk from the root that \<^verbatim>\<open>node.insert\<close> implements. The method
  therefore panics on a token that is not among the nine verbs, and otherwise raises
  \<^verbatim>\<open>maxParam\<close> to the number of names and inserts at the root of the tree. In the
  sources themselves neither \<^verbatim>\<open>node.insert\<close> nor \<^verbatim>\<open>addHandler\<close> rejects a token.
\<close>

definition Router_insert ::
  "router \<Rightarrow> string \<Rightarrow> string \<Rightarrow> slice option \<Rightarrow> kind \<Rightarrow> string \<Rightarrow> string list \<Rightarrow> error + router" where
  "Router_insert r method path' h t pp pn =
     (if method \<notin> set methods then Inl (Panic ''chef: invalid method'')
      else
        (case node_insert (heap r) (tree r) method path' h t pp pn of
           Inl e \<Rightarrow> Inl e
         | Inr H \<Rightarrow> Inr (r\<lparr>heap := H, maxParam := max (maxParam r) (length pn)\<rparr>)))"

text \<open>
  The loop of \<^verbatim>\<open>Router.add\<close> over the bytes of the path. At a \<^verbatim>\<open>':'\<close> the static part
  before it is inserted, the name is cut out of the path and the parameter node is
  inserted; at a \<^verbatim>\<open>'*'\<close> the static part and the catch-all node are inserted and the
  registration ends. \<open>i\<close> is the loop index, \<open>pn\<close> the names found so far, \<open>pp\<close> the
  pristine path.
\<close>

function add_loop ::
  "router \<Rightarrow> string \<Rightarrow> string \<Rightarrow> nat \<Rightarrow> string list \<Rightarrow> string \<Rightarrow> slice option \<Rightarrow> error + router" where
  "add_loop r method path' i pn pp handlers =
     (if i < length path' then
        (if path' ! i = CHR '':'' then
           (let j = i + 1 in
            case Router_insert r method (take i path') None skind [] [] of
              Inl e \<Rightarrow> Inl e
            | Inr r1 \<Rightarrow>
                (let i' = i + length (takeWhile (\<lambda>c. c \<noteq> CHR ''/'') (drop i path'));
                     pn' = pn @ [take (i' - j) (drop j path')];
                     path'' = take j path' @ drop i' path'
                 in
                 if j = length path''
                 then Router_insert r1 method (take j path'') handlers pkind pp pn'
                 else
                   (case Router_insert r1 method (take j path'') None pkind pp pn' of
                      Inl e \<Rightarrow> Inl e
                    | Inr r2 \<Rightarrow> add_loop r2 method path'' (j + 1) pn' pp handlers)))
         else if path' ! i = CHR ''*'' then
           (case Router_insert r method (take i path') None skind [] [] of
              Inl e \<Rightarrow> Inl e
            | Inr r1 \<Rightarrow> Router_insert r1 method (take (i + 1) path') handlers akind pp (pn @ [''*'']))
         else add_loop r method path' (i + 1) pn pp handlers)
      else Router_insert r method path' handlers skind pp pn)"
  by pat_completeness auto
termination
  by (relation "measure (\<lambda>(r, method, path', i, pn, pp, handlers). length path' - i)") auto

declare add_loop.simps [simp del]

text \<open>
  The handler chain of a route, as \<^verbatim>\<open>Router.add\<close> builds it: starting from the slice
  \<^verbatim>\<open>r.middlewares\<close> itself, it appends the route-level middlewares \<open>hs\<close> (unless nil),
  the handler \<open>h\<close> and the after-handlers.
\<close>

definition add_handlers ::
  "(nat \<Rightarrow> nat \<Rightarrow> nat) \<Rightarrow> router \<Rightarrow> Handler \<Rightarrow> slice option \<Rightarrow> slice option \<times> heap" where
  "add_handlers grow r h hs =
     (let (handlers1, H1) =
            (if hs \<noteq> None then append_slice grow (heap r) (middlewares r) (elems (heap r) hs)
             else (middlewares r, heap r));
          (handlers2, H2) = append_slice grow H1 handlers1 [h]
      in append_slice grow H2 handlers2 (elems H2 (after r)))"

text \<open>\<^verbatim>\<open>Router.add\<close>: an empty path panics, and a path gets a leading slash.\<close>

definition Router_add ::
  "(nat \<Rightarrow> nat \<Rightarrow> nat) \<Rightarrow> router \<Rightarrow> string \<Rightarrow> string \<Rightarrow> Handler \<Rightarrow> slice option \<Rightarrow> error + router" where
  "Router_add grow r method path' h hs =
     (if path' = [] then Inl (Panic ''chef: path cannot be empty'')
      else
        (let path1 = (if hd path' \<noteq> CHR ''/'' then CHR ''/'' # path' else path');
             (handlers, H) = add_handlers grow r h hs
         in add_loop (r\<lparr>heap := H\<rparr>) method path1 0 [] path1 handlers))"

text \<open>\<^verbatim>\<open>Chef.Use\<close> and \<^verbatim>\<open>Chef.After\<close> append to the slices of the router.\<close>

definition Chef_Use :: "(nat \<Rightarrow> nat \<Rightarrow> nat) \<Rightarrow> router \<Rightarrow> Handler list \<Rightarrow> router" where
  "Chef_Use grow r ms =
     (let (s, H) = append_slice grow (heap r) (middlewares r) ms
      in r\<lparr>heap := H, middlewares := s\<rparr>)"

definition Chef_After :: "(nat \<Rightarrow> nat \<Rightarrow> nat) \<Rightarrow> router \<Rightarrow> Handler list \<Rightarrow> router" where
  "Chef_After grow r ms =
     (let (s, H) = append_slice grow (heap r) (after r) ms
      in r\<lparr>heap := H, after := s\<rparr>)"

section \<open>The request context\<close>

text \<open>
  \<^verbatim>\<open>NewContext\<close> sizes the parameter values by \<^verbatim>\<open>*maxParam\<close> and makes an empty
  \<^verbatim>\<open>params\<close> map; the other fields have their zero values.
\<close>

definition NewContext :: "nat \<Rightarrow> ctx" where
  "NewContext maxParam' =
     \<lparr>c_path = [], c_pnames = [], c_pvalues = replicate maxParam' [],
      c_params = (\<lambda>_. None), c_handlers = None, c_nextIndex = 0\<rparr>"

text \<open>
  \<^verbatim>\<open>context.reset\<close>, as far as the router is concerned: the cursor is set before the
  first handler and the chain is the not-found chain.
\<close>

definition reset :: "heap \<Rightarrow> ctx \<Rightarrow> heap \<times> ctx" where
  "reset H c =
     (let (hs, H1) = slice_lit H [NotFoundHandler]
      in (H1, c\<lparr>c_nextIndex := - 1, c_path := [], c_pnames := [], c_handlers := hs\<rparr>))"

text \<open>\<^verbatim>\<open>context.Param\<close> reads the map \<^verbatim>\<open>params\<close>; a missing key gives the empty string.\<close>

definition Param :: "ctx \<Rightarrow> string \<Rightarrow> string" where
  "Param c key = (case c_params c key of None \<Rightarrow> [] | Some v \<Rightarrow> v)"

text \<open>
  \<^verbatim>\<open>context.Next\<close> moves the cursor and calls the handler under it, if there is one.
  The handler is opaque; the model returns which handler is called.
\<close>

definition Next :: "heap \<Rightarrow> ctx \<Rightarrow> error + ctx \<times> Handler option" where
  "Next H c =
     (let c1 = c\<lparr>c_nextIndex := c_nextIndex c + 1\<rparr>;
          lenHandlers = int (length (elems H (c_handlers c1)))
      in
      if lenHandlers > 0 \<and> c_nextIndex c1 < lenHandlers then
        (if c_nextIndex c1 < 0 then Inl IndexOutOfRange
         else Inr (c1, Some (elems H (c_handlers c1) ! nat (c_nextIndex c1))))
      else Inr (c1, None))"

section \<open>Registering routes and resolving requests\<close>

text \<open>
  The routes of an application are registered one after the other at start-up; a panic
  ends the registration. A route is a method, a path pattern, the handler and the
  route-level middlewares (nil for the routes of \<^verbatim>\<open>Chef.GET\<close> and its siblings).
\<close>

fun register_all ::
  "(nat \<Rightarrow> nat \<Rightarrow> nat) \<Rightarrow> router \<Rightarrow> (string \<times> string \<times> Handler \<times> slice option) list
     \<Rightarrow> error + router" where
  "register_all grow r [] = Inr r"
| "register_all grow r ((method, path', h, hs) # routes) =
     (case Router_add grow r method path' h hs of
        Inl e \<Rightarrow> Inl e
      | Inr r' \<Rightarrow> register_all grow r' routes)"

text \<open>
  The steps of \<^verbatim>\<open>Router.ServeHTTP\<close> before \<^verbatim>\<open>ctx.Next()\<close>, for a context that the pool
  makes with \<^verbatim>\<open>NewContext\<close>: the context is reset and the lookup fills it.
  Modelled from the spec: \<^verbatim>\<open>Router.Find\<close> is not among the sources; the spec's
  \<^verbatim>\<open>resolve\<close> populates the context in place, which is \<^verbatim>\<open>node.find\<close> at the root.
\<close>

definition resolve :: "router \<Rightarrow> string \<Rightarrow> string \<Rightarrow> (error + heap \<times> ctx) option" where
  "resolve r method path' =
     (case reset (heap r) (NewContext (maxParam r)) of
        (H, c) \<Rightarrow> node_find H (tree r) method path' c)"

text \<open>Registration of some routes on a router, followed by one request.\<close>

definition lookup ::
  "(nat \<Rightarrow> nat \<Rightarrow> nat) \<Rightarrow> router \<Rightarrow> (string \<times> string \<times> Handler \<times> slice option) list
     \<Rightarrow> string \<Rightarrow> string \<Rightarrow> (error + heap \<times> ctx) option" where
  "lookup grow r routes method path' =
     (case register_all grow r routes of
        Inl e \<Rightarrow> Some (Inl e)
      | Inr r' \<Rightarrow> resolve r' method path')"

text \<open>What a handler sees in the context after the lookup.\<close>

definition found_chain :: "(error + heap \<times> ctx) option \<Rightarrow> (error + Handler list) option" where
  "found_chain x = map_option (map_sum id (\<lambda>(H, c). elems H (c_handlers c))) x"

definition found_pnames :: "(error + heap \<times> ctx) option \<Rightarrow> (error + string list) option" where
  "found_pnames x = map_option (map_sum id (\<lambda>(H, c). c_pnames c)) x"

definition found_pvalues :: "(error + heap \<times> ctx) option \<Rightarrow> (error + string list) option" where
  "found_pvalues x = map_option (map_sum id (\<lambda>(H, c). c_pvalues c)) x"

definition found_Param :: "string \<Rightarrow> (error + heap \<times> ctx) option \<Rightarrow> (error + string) option" where
  "found_Param key x = map_option (map_sum id (\<lambda>(H, c). Param c key)) x"

text \<open>
  The doubling rule of the Go runtime for a small slice that must grow: twice the old
  capacity, or the needed length if that is more. The runtime then rounds the capacity up
  to a size class of its allocator, which the rule leaves out; the two agree on the steps
  from capacity 0 to 1, 1 to 2 and 2 to 4, the only ones in the closed examples below.
\<close>

definition gc_grow :: "nat \<Rightarrow> nat \<Rightarrow> nat" where
  "gc_grow c m = (if 2 * c < m then m else 2 * c)"

text \<open>
  A small tree for the examples: a root \<^verbatim>\<open>"/"\<close> with a static child that has a
  chain for POST, a parameter child and a catch-all child.
\<close>

definition ex_heap :: heap where
  "ex_heap =
     \<lparr>nodes = (\<lambda>_. zero_node)
        (0 := zero_node\<lparr>label := CHR ''/'', prefix := ''/'', children := [1, 2, 3]\<rparr>,
         1 := zero_node\<lparr>label := CHR ''n'', prefix := ''new'', parent := Some 0,
                         methodHandler := new_methodHandler\<lparr>post := Some \<lparr>arr = 0, len = 1\<rparr>\<rparr>\<rparr>,
         2 := zero_node\<lparr>kind := pkind, label := CHR '':'', prefix := '':'', parent := Some 0,
                         pnames := [''id'']\<rparr>,
         3 := zero_node\<lparr>kind := akind, label := CHR ''*'', prefix := ''*'', parent := Some 0,
                         pnames := [''*'']\<rparr>),
      nnodes = 4, arrays = (\<lambda>_. [])(0 := [UserHandler 1]), narrays = 1\<rparr>"

text \<open>
  The routes POST \<^verbatim>\<open>"/static/"\<close> and GET \<^verbatim>\<open>"/static/*"\<close>: a node with a chain for
  another method and a catch-all child below it.
\<close>

definition static_dir_router :: router where
  "static_dir_router =
     (case register_all gc_grow NewRouter
             [(POST, ''/static/'', UserHandler 1, None), (GET, ''/static/*'', UserHandler 2, None)] of
        Inl e \<Rightarrow> NewRouter
      | Inr r \<Rightarrow> r)"

text \<open>
  The routes \<^verbatim>\<open>"/static/"\<close> and \<^verbatim>\<open>"/static/*"\<close>, both under POST: a catch-all child
  that has a chain, but none for GET.
\<close>

definition post_dir_router :: router where
  "post_dir_router =
     (case register_all gc_grow NewRouter
             [(POST, ''/static/'', UserHandler 1, None), (POST, ''/static/*'', UserHandler 2, None)] of
        Inl e \<Rightarrow> NewRouter
      | Inr r \<Rightarrow> r)"

text \<open>
  The routes \<^verbatim>\<open>"/:x"\<close> and \<^verbatim>\<open>"/a:x/a"\<close> under GET, and the states of the lookup of
  \<^verbatim>\<open>/a/\<close> in them after the one parameter slot is taken: at the root, with
  \<^verbatim>\<open>"a/"\<close> to search and the root saved as the node to go back to.
\<close>

definition loop_router :: router where
  "loop_router =
     (case register_all gc_grow NewRouter
             [(GET, ''/:x'', UserHandler 1, None), (GET, ''/a:x/a'', UserHandler 2, None)] of
        Inl e \<Rightarrow> NewRouter
      | Inr r \<Rightarrow> r)"

definition in_cycle ::
  "heap \<Rightarrow> pc \<Rightarrow> nat option \<Rightarrow> string \<Rightarrow> nat \<Rightarrow> kind \<Rightarrow> nat option \<Rightarrow> string \<Rightarrow> string list
     \<Rightarrow> bool" where
  "in_cycle H pc n search nc nk nn ns pvalues =
     (nodes H = nodes (heap loop_router) \<and> (pc = AtLoop \<or> pc = AtParam) \<and> n = Some 0 \<and>
      search = ''a/'' \<and> nc = 1 \<and> nk = pkind \<and> nn = Some 0 \<and> ns = ''a/'' \<and> pvalues = [''''])"

section \<open>Evaluation\<close>

lemmas verbs =
  GET_def POST_def PUT_def DELETE_def PATCH_def OPTIONS_def HEAD_def CONNECT_def TRACE_def

lemmas exec_defs =
  Router_add_def add_handlers_def append_slice_def elems_def cap_def slice_lit_def
  Router_insert_def node_insert_def newNode_def alloc_node_def set_node_def addChild_def
  addHandler_def findHandler_def findChild_def findChildWithLabel_def findChildByKind_def
  NewRouter_def zero_node_def new_methodHandler_def checkMethodNotAllowed_def methods_def
  node_find_def find_End_def find_step_def step_Loop_def step_Param_def step_Any_def
  slice_store_def reset_def NewContext_def Let_def Chef_Use_def Chef_After_def gc_grow_def
  Param_def resolve_def lookup_def found_chain_def found_pnames_def found_pvalues_def
  found_Param_def ex_heap_def insert_loop.simps add_loop.simps

section \<open>Parameters\<close>

text \<open>
  C2 fails on the code. With \<^verbatim>\<open>"/users/:id"\<close> alone, the request GET \<^verbatim>\<open>/users/42\<close> gets
  the registered chain. With \<^verbatim>\<open>"/users/421"\<close> and \<^verbatim>\<open>"/users/422"\<close> registered as well,
  the request ends at the branch node \<^verbatim>\<open>"42"\<close> of the two literal routes with the search
  string used up; the node has no chain, and the lookup goes to \<^verbatim>\<open>End\<close> there instead of
  going back to the parameter child as it does on a mismatch: the request gets the
  not-found chain, no name and no value. And the bytes that a parameter node takes are not
  always those of the remaining request path: with \<^verbatim>\<open>"/:p"\<close>, \<^verbatim>\<open>"/a/bb"\<close> and
  \<^verbatim>\<open>"/a/cc"\<close>, the request GET \<^verbatim>\<open>/a/bx\<close> climbs from \<^verbatim>\<open>"a/"\<close> to the root through
  \<^verbatim>\<open>nn = n.parent\<close> with the search string saved below, and the parameter node of the
  root takes \<^verbatim>\<open>"bx"\<close>, where the remaining path is \<^verbatim>\<open>"a/bx"\<close>.
\<close>

theorem param_route_missed:
  "found_chain (lookup grow NewRouter [(GET, ''/users/:id'', h1, None)] GET ''/users/42'')
     = Some (Inr [h1]) \<and>
   found_chain (lookup grow NewRouter
       [(GET, ''/users/:id'', h1, None), (GET, ''/users/421'', h2, None),
        (GET, ''/users/422'', h3, None)] GET ''/users/42'')
     = Some (Inr [NotFoundHandler]) \<and>
   found_pnames (lookup grow NewRouter
       [(GET, ''/users/:id'', h1, None), (GET, ''/users/421'', h2, None),
        (GET, ''/users/422'', h3, None)] GET ''/users/42'')
     = Some (Inr []) \<and>
   found_pvalues (lookup grow NewRouter
       [(GET, ''/users/:id'', h1, None), (GET, ''/users/421'', h2, None),
        (GET, ''/users/422'', h3, None)] GET ''/users/42'')
     = Some (Inr ['''']) \<and>
   found_chain (lookup grow NewRouter
       [(GET, ''/:p'', h1, None), (GET, ''/a/bb'', h2, None), (GET, ''/a/cc'', h3, None)]
       GET ''/a/bx'')
     = Some (Inr [h1]) \<and>
   found_pvalues (lookup grow NewRouter
       [(GET, ''/:p'', h1, None), (GET, ''/a/bb'', h2, None), (GET, ''/a/cc'', h3, None)]
       GET ''/a/bx'')
     = Some (Inr [''bx''])"
  by (simp add: exec_defs verbs find_loop.simps)

lemma node_find_params:
  "node_find H n method path' c = Some (Inr (H', c')) \<Longrightarrow> c_params c' = c_params c"
  by (auto simp: node_find_def find_End_def Let_def checkMethodNotAllowed_def slice_lit_def
      split: option.splits sum.splits exit.splits if_splits prod.splits)

text \<open>
  C3 fails on the code. \<^verbatim>\<open>context.Param\<close> reads the map \<^verbatim>\<open>params\<close>, which
  \<^verbatim>\<open>NewContext\<close> makes empty and which neither \<^verbatim>\<open>reset\<close> nor \<^verbatim>\<open>node.find\<close> writes:
  the lookup leaves the names and the values in \<^verbatim>\<open>pnames\<close> and \<^verbatim>\<open>pvalues\<close>, and
  \<^verbatim>\<open>Param\<close> returns the empty string for every name. For \<^verbatim>\<open>"/users/:id"\<close> and the
  request GET \<^verbatim>\<open>/users/42\<close> the value \<^verbatim>\<open>"42"\<close> is bound at the position of \<^verbatim>\<open>"id"\<close>,
  and \<^verbatim>\<open>Param("id")\<close> is empty.
\<close>

theorem Param_reads_empty_map:
  "found_pnames (lookup grow NewRouter [(GET, ''/users/:id'', h, None)] GET ''/users/42'')
     = Some (Inr [''id'']) \<and>
   found_pvalues (lookup grow NewRouter [(GET, ''/users/:id'', h, None)] GET ''/users/42'')
     = Some (Inr [''42'']) \<and>
   found_Param ''id'' (lookup grow NewRouter [(GET, ''/users/:id'', h, None)] GET ''/users/42'')
     = Some (Inr []) \<and>
   (\<forall>r routes method path' key v.
      found_Param key (lookup grow r routes method path') = Some (Inr v) \<longrightarrow> v = [])"
proof (intro conjI allI impI)
  fix r routes meth path' key v
  assume a: "found_Param key (lookup grow r routes meth path') = Some (Inr v)"
  show "v = []"
  proof (cases "register_all grow r routes")
    case (Inl e)
    with a show ?thesis by (simp add: lookup_def found_Param_def)
  next
    case (Inr r')
    obtain H c where rc: "reset (heap r') (NewContext (maxParam r')) = (H, c)"
      by (cases "reset (heap r') (NewContext (maxParam r'))")
    then have p: "c_params c = (\<lambda>_. None)"
      by (auto simp: reset_def NewContext_def slice_lit_def)
    from a Inr rc have
      "map_option (map_sum id (\<lambda>(H, c). Param c key)) (node_find H (tree r') meth path' c)
         = Some (Inr v)"
      by (simp add: lookup_def resolve_def found_Param_def)
    then obtain x where x: "node_find H (tree r') meth path' c = Some x"
      and mx: "map_sum id (\<lambda>(H, c). Param c key) x = Inr v"
      by auto
    from mx obtain H' c' where "x = Inr (H', c')" and v: "v = Param c' key"
      by (cases x) auto
    with x have f: "node_find H (tree r') meth path' c = Some (Inr (H', c'))"
      by simp
    from node_find_params [OF f] p v show ?thesis by (simp add: Param_def)
  qed
qed (simp_all add: exec_defs verbs find_loop.simps)

theorem Param_reads_empty_map_witness:
  "found_pvalues (lookup gc_grow NewRouter [(GET, ''/users/:id'', UserHandler 1, None)]
      GET ''/users/42'') = Some (Inr [''42'']) \<and>
   found_Param ''id'' (lookup gc_grow NewRouter [(GET, ''/users/:id'', UserHandler 1, None)]
      GET ''/users/42'') = Some (Inr [])"
  using Param_reads_empty_map [of gc_grow "UserHandler 1"] by simp

section \<open>Catch-all\<close>

text \<open>
  C4 fails on the code. With \<^verbatim>\<open>"/*"\<close> alone, the request GET \<^verbatim>\<open>/a/1/2\<close> binds
  \<^verbatim>\<open>"a/1/2"\<close>. With \<^verbatim>\<open>"/a/:x"\<close> registered as well, the lookup fails below \<^verbatim>\<open>"a/"\<close>,
  climbs to the root through \<^verbatim>\<open>nn = n.parent\<close> with the search string saved at \<^verbatim>\<open>"a/"\<close>,
  and the catch-all node of the root takes \<^verbatim>\<open>"1/2"\<close>: not the whole remaining path.
  With \<^verbatim>\<open>"/static/*"\<close> alone, GET \<^verbatim>\<open>/static/a/b/c.png\<close> binds \<^verbatim>\<open>"a/b/c.png"\<close>; with
  \<^verbatim>\<open>"/static/a/b/c.png1"\<close> and \<^verbatim>\<open>"/static/a/b/c.png2"\<close> registered as well, the request
  ends at the branch node of the two literal routes and gets the not-found chain, and
  nothing is bound.
\<close>

theorem catch_all_value_stale:
  "found_pvalues (lookup grow NewRouter [(GET, ''/*'', h2, None)] GET ''/a/1/2'')
     = Some (Inr [''a/1/2'']) \<and>
   found_chain (lookup grow NewRouter
       [(GET, ''/a/:x'', h1, None), (GET, ''/*'', h2, None)] GET ''/a/1/2'')
     = Some (Inr [h2]) \<and>
   found_pnames (lookup grow NewRouter
       [(GET, ''/a/:x'', h1, None), (GET, ''/*'', h2, None)] GET ''/a/1/2'')
     = Some (Inr [''*'']) \<and>
   found_pvalues (lookup grow NewRouter
       [(GET, ''/a/:x'', h1, None), (GET, ''/*'', h2, None)] GET ''/a/1/2'')
     = Some (Inr [''1/2'']) \<and>
   found_chain (lookup grow NewRouter [(GET, ''/static/*'', h1, None)] GET ''/static/a/b/c.png'')
     = Some (Inr [h1]) \<and>
   found_pvalues (lookup grow NewRouter [(GET, ''/static/*'', h1, None)] GET ''/static/a/b/c.png'')
     = Some (Inr [''a/b/c.png'']) \<and>
   found_chain (lookup grow NewRouter
       [(GET, ''/static/*'', h1, None), (GET, ''/static/a/b/c.png1'', h2, None),
        (GET, ''/static/a/b/c.png2'', h3, None)] GET ''/static/a/b/c.png'')
     = Some (Inr [NotFoundHandler]) \<and>
   found_pvalues (lookup grow NewRouter
       [(GET, ''/static/*'', h1, None), (GET, ''/static/a/b/c.png1'', h2, None),
        (GET, ''/static/a/b/c.png2'', h3, None)] GET ''/static/a/b/c.png'')
     = Some (Inr [''''])"
  by (simp add: exec_defs verbs find_loop.simps)

section \<open>Precedence\<close>

text \<open>
  C5 fails on the code. The route \<^verbatim>\<open>"/:p/1/k"\<close> matches the request GET \<^verbatim>\<open>/a/1/k\<close>: alone,
  it is found with \<^verbatim>\<open>p\<close> bound to \<^verbatim>\<open>"a"\<close>. With \<^verbatim>\<open>"/*"\<close> and \<^verbatim>\<open>"/a/:x"\<close> registered
  as well, the lookup enters the static child \<^verbatim>\<open>"a/"\<close> of the root and fails below it;
  by then the one saved kind \<^verbatim>\<open>nk\<close> is that of the catch-all, so back at the root the
  lookup jumps to \<^verbatim>\<open>Any\<close> and never tries the parameter child: the request gets the
  chain of \<^verbatim>\<open>"/*"\<close>, although the root has a parameter child whose route matches.
\<close>

theorem catch_all_before_param:
  "found_chain (lookup grow NewRouter [(GET, ''/:p/1/k'', h1, None)] GET ''/a/1/k'')
     = Some (Inr [h1]) \<and>
   found_pvalues (lookup grow NewRouter [(GET, ''/:p/1/k'', h1, None)] GET ''/a/1/k'')
     = Some (Inr [''a'']) \<and>
   found_chain (lookup grow NewRouter
       [(GET, ''/:p/1/k'', h1, None), (GET, ''/*'', h2, None), (GET, ''/a/:x'', h3, None)]
       GET ''/a/1/k'')
     = Some (Inr [h2]) \<and>
   found_pnames (lookup grow NewRouter
       [(GET, ''/:p/1/k'', h1, None), (GET, ''/*'', h2, None), (GET, ''/a/:x'', h3, None)]
       GET ''/a/1/k'')
     = Some (Inr [''*'']) \<and>
   found_pvalues (lookup grow NewRouter
       [(GET, ''/:p/1/k'', h1, None), (GET, ''/*'', h2, None), (GET, ''/a/:x'', h3, None)]
       GET ''/a/1/k'')
     = Some (Inr [''1/k''])"
  by (simp add: exec_defs verbs find_loop.simps)

section \<open>Method not allowed and not found\<close>

text \<open>
  C6 as stated fails. The request GET \<^verbatim>\<open>/static/\<close> is matched to the node of
  \<^verbatim>\<open>"/static/"\<close>, which has a chain for POST and none for GET; the code behind \<^verbatim>\<open>End\<close>
  then looks for a catch-all child (``dig further for any'') and installs the chain of
  that child, not the method-not-allowed chain.
\<close>

theorem method_not_allowed_counterexample:
  "register_all gc_grow NewRouter
     [(POST, ''/static/'', UserHandler 1, None), (GET, ''/static/*'', UserHandler 2, None)]
     = Inr static_dir_router \<and>
   find_loop (heap static_dir_router) AtLoop (tree static_dir_router) ''/static/'' 0 skind None []
     [''''] = Some (Inr (AtEnd (Some 0) [''''])) \<and>
   findHandler POST (nodes (heap static_dir_router) 0) \<noteq> None \<and>
   findHandler GET (nodes (heap static_dir_router) 0) = None \<and>
   found_chain (resolve static_dir_router GET ''/static/'') = Some (Inr [UserHandler 2])"
  by (simp add: static_dir_router_def exec_defs verbs find_loop.simps)

lemma find_End_no_any:
  assumes "findHandler method (nodes H a) = None" "findChildByKind H a akind = None"
  shows "find_End H method (Some a) pv c =
    Inr (snd (checkMethodNotAllowed H (nodes H a)),
         c\<lparr>c_handlers := fst (checkMethodNotAllowed H (nodes H a)), c_path := ppath (nodes H a),
           c_pnames := pnames (nodes H a), c_pvalues := pv\<rparr>)"
  using assms
  by (simp add: find_End_def Let_def checkMethodNotAllowed_def slice_lit_def findChildByKind_def)

lemma find_End_any:
  assumes "findHandler method (nodes H a) = None" "findChildByKind H a akind = Some b"
    "0 < length (pnames (nodes H b))" "length (pnames (nodes H b)) \<le> length pv"
  shows "find_End H method (Some a) pv c =
    (let H1 = snd (checkMethodNotAllowed H (nodes H a));
         (hs, H2) = (case findHandler method (nodes H b) of
                       Some s \<Rightarrow> (Some s, H1)
                     | None \<Rightarrow> checkMethodNotAllowed H1 (nodes H b))
     in Inr (H2, c\<lparr>c_handlers := hs, c_path := ppath (nodes H b), c_pnames := pnames (nodes H b),
                   c_pvalues := pv[length (pnames (nodes H b)) - 1 := []]\<rparr>))"
proof -
  have st: "slice_store pv (int (length (pnames (nodes H b))) - 1) [] =
      Inr (pv[length (pnames (nodes H b)) - 1 := []])"
    using assms(3,4) by (simp add: slice_store_def nat_diff_distrib' int_ops)
  show ?thesis
    using assms(1,2) st
    by (simp add: find_End_def Let_def checkMethodNotAllowed_def slice_lit_def findChildByKind_def
        split: option.splits prod.splits)
qed

text \<open>
  C6, amended. When the lookup ends at a node that has no chain for the requested method:
  without a catch-all child, the context gets the method-not-allowed chain if the node has
  a chain for another method, and the not-found chain if it has no chain at all. With a
  catch-all child whose last parameter name has a slot, the child decides, whatever
  chains the node itself has: the context gets the chain of the child for the requested
  method, with the names and the pristine path of the child, if the child has one;
  otherwise the method-not-allowed chain if the child has a chain for another method,
  and the not-found chain if the child has no chain at all.
\<close>

theorem method_not_allowed_or_catch_all_child:
  "find_loop H AtLoop n path' 0 skind None [] (c_pvalues c) = Some (Inr (AtEnd (Some a) pv)) \<and>
   findHandler method (nodes H a) = None \<longrightarrow>
     (findChildByKind H a akind = None \<longrightarrow>
        ((\<exists>m \<in> set methods. m \<noteq> method \<and> findHandler m (nodes H a) \<noteq> None) \<longrightarrow>
           found_chain (node_find H n method path' c) = Some (Inr [MethodNotAllowedHandler])) \<and>
        ((\<forall>m \<in> set methods. findHandler m (nodes H a) = None) \<longrightarrow>
           found_chain (node_find H n method path' c) = Some (Inr [NotFoundHandler]))) \<and>
     (\<forall>b. findChildByKind H a akind = Some b \<and> 0 < length (pnames (nodes H b)) \<and>
          length (pnames (nodes H b)) \<le> length pv \<longrightarrow>
        (\<forall>s. findHandler method (nodes H b) = Some s \<longrightarrow>
           (\<exists>H' c'. node_find H n method path' c = Some (Inr (H', c')) \<and>
              c_handlers c' = Some s \<and> c_pnames c' = pnames (nodes H b) \<and>
              c_path c' = ppath (nodes H b))) \<and>
        (findHandler method (nodes H b) = None \<longrightarrow>
           ((\<exists>m \<in> set methods. m \<noteq> method \<and> findHandler m (nodes H b) \<noteq> None) \<longrightarrow>
              found_chain (node_find H n method path' c) = Some (Inr [MethodNotAllowedHandler])) \<and>
           ((\<forall>m \<in> set methods. findHandler m (nodes H b) = None) \<longrightarrow>
              found_chain (node_find H n method path' c) = Some (Inr [NotFoundHandler]))))"
proof (intro impI conjI allI; (elim conjE)?)
  assume fl: "find_loop H AtLoop n path' 0 skind None [] (c_pvalues c) = Some (Inr (AtEnd (Some a) pv))"
    and fh: "findHandler method (nodes H a) = None"
    and na: "findChildByKind H a akind = None"
  have nf: "node_find H n method path' c = Some (find_End H method (Some a) pv (c\<lparr>c_path := path'\<rparr>))"
    using fl by (simp add: node_find_def)
  {
    assume "\<exists>m \<in> set methods. m \<noteq> method \<and> findHandler m (nodes H a) \<noteq> None"
    then show "found_chain (node_find H n method path' c) = Some (Inr [MethodNotAllowedHandler])"
      unfolding nf find_End_no_any [OF fh na]
      by (auto simp: found_chain_def checkMethodNotAllowed_def slice_lit_def elems_def)
  next
    assume "\<forall>m \<in> set methods. findHandler m (nodes H a) = None"
    then show "found_chain (node_find H n method path' c) = Some (Inr [NotFoundHandler])"
      unfolding nf find_End_no_any [OF fh na]
      by (auto simp: found_chain_def checkMethodNotAllowed_def slice_lit_def elems_def)
  }
next
  fix b s
  assume fl: "find_loop H AtLoop n path' 0 skind None [] (c_pvalues c) = Some (Inr (AtEnd (Some a) pv))"
    and fh: "findHandler method (nodes H a) = None"
    and ch: "findChildByKind H a akind = Some b" "0 < length (pnames (nodes H b))"
      "length (pnames (nodes H b)) \<le> length pv"
    and s: "findHandler method (nodes H b) = Some s"
  have nf: "node_find H n method path' c = Some (find_End H method (Some a) pv (c\<lparr>c_path := path'\<rparr>))"
    using fl by (simp add: node_find_def)
  show "\<exists>H' c'. node_find H n method path' c = Some (Inr (H', c')) \<and>
      c_handlers c' = Some s \<and> c_pnames c' = pnames (nodes H b) \<and> c_path c' = ppath (nodes H b)"
    unfolding nf find_End_any [OF fh ch] using s by (simp add: Let_def)
next
  fix b
  assume fl: "find_loop H AtLoop n path' 0 skind None [] (c_pvalues c) = Some (Inr (AtEnd (Some a) pv))"
    and fh: "findHandler method (nodes H a) = None"
    and ch: "findChildByKind H a akind = Some b" "0 < length (pnames (nodes H b))"
      "length (pnames (nodes H b)) \<le> length pv"
    and s: "findHandler method (nodes H b) = None"
    and ex: "\<exists>m \<in> set methods. m \<noteq> method \<and> findHandler m (nodes H b) \<noteq> None"
  have nf: "node_find H n method path' c = Some (find_End H method (Some a) pv (c\<lparr>c_path := path'\<rparr>))"
    using fl by (simp add: node_find_def)
  show "found_chain (node_find H n method path' c) = Some (Inr [MethodNotAllowedHandler])"
    unfolding nf find_End_any [OF fh ch] using s ex
    by (auto simp: Let_def found_chain_def checkMethodNotAllowed_def slice_lit_def elems_def)
next
  fix b
  assume fl: "find_loop H AtLoop n path' 0 skind None [] (c_pvalues c) = Some (Inr (AtEnd (Some a) pv))"
    and fh: "findHandler method (nodes H a) = None"
    and ch: "findChildByKind H a akind = Some b" "0 < length (pnames (nodes H b))"
      "length (pnames (nodes H b)) \<le> length pv"
    and s: "findHandler method (nodes H b) = None"
    and ex: "\<forall>m \<in> set methods. findHandler m (nodes H b) = None"
  have nf: "node_find H n method path' c = Some (find_End H method (Some a) pv (c\<lparr>c_path := path'\<rparr>))"
    using fl by (simp add: node_find_def)
  show "found_chain (node_find H n method path' c) = Some (Inr [NotFoundHandler])"
    unfolding nf find_End_any [OF fh ch] using s ex
    by (auto simp: Let_def found_chain_def checkMethodNotAllowed_def slice_lit_def elems_def)
qed

theorem method_not_allowed_or_catch_all_child_witness:
  "find_loop ex_heap AtLoop (Some 0) ''/new'' 0 skind None [] (c_pvalues (NewContext 1))
     = Some (Inr (AtEnd (Some 1) [''''])) \<and>
   findHandler GET (nodes ex_heap 1) = None \<and> findChildByKind ex_heap 1 akind = None \<and>
   POST \<in> set methods \<and> POST \<noteq> GET \<and> findHandler POST (nodes ex_heap 1) \<noteq> None \<and>
   found_chain (node_find ex_heap (Some 0) GET ''/new'' (NewContext 1))
     = Some (Inr [MethodNotAllowedHandler]) \<and>
   find_loop ex_heap AtLoop (Some 0) ''/42'' 0 skind None [] (c_pvalues (NewContext 1))
     = Some (Inr (AtEnd (Some 2) [''42''])) \<and>
   findHandler GET (nodes ex_heap 2) = None \<and> findChildByKind ex_heap 2 akind = None \<and>
   list_all (\<lambda>m. findHandler m (nodes ex_heap 2) = None) methods \<and>
   found_chain (node_find ex_heap (Some 0) GET ''/42'' (NewContext 1))
     = Some (Inr [NotFoundHandler]) \<and>
   find_loop (heap static_dir_router) AtLoop (Some 0) ''/static/'' 0 skind None []
       (c_pvalues (NewContext 1)) = Some (Inr (AtEnd (Some 0) [''''])) \<and>
   findHandler GET (nodes (heap static_dir_router) 0) = None \<and>
   findChildByKind (heap static_dir_router) 0 akind = Some 1 \<and>
   pnames (nodes (heap static_dir_router) 1) = [''*''] \<and>
   findHandler GET (nodes (heap static_dir_router) 1) = Some \<lparr>arr = 1, len = 1\<rparr> \<and>
   (\<exists>H' c'. node_find (heap static_dir_router) (Some 0) GET ''/static/'' (NewContext 1)
        = Some (Inr (H', c')) \<and>
      c_handlers c' = Some \<lparr>arr = 1, len = 1\<rparr> \<and> c_pnames c' = [''*'']) \<and>
   find_loop (heap post_dir_router) AtLoop (Some 0) ''/static/'' 0 skind None []
       (c_pvalues (NewContext 1)) = Some (Inr (AtEnd (Some 0) [''''])) \<and>
   findHandler GET (nodes (heap post_dir_router) 0) = None \<and>
   findChildByKind (heap post_dir_router) 0 akind = Some 1 \<and>
   pnames (nodes (heap post_dir_router) 1) = [''*''] \<and>
   findHandler GET (nodes (heap post_dir_router) 1) = None \<and>
   findHandler POST (nodes (heap post_dir_router) 1) \<noteq> None \<and>
   found_chain (node_find (heap post_dir_router) (Some 0) GET ''/static/'' (NewContext 1))
     = Some (Inr [MethodNotAllowedHandler]) \<and>
   find_loop ex_heap AtLoop (Some 0) ''/'' 0 skind None [] (c_pvalues (NewContext 1))
     = Some (Inr (AtEnd (Some 0) [''''])) \<and>
   findHandler GET (nodes ex_heap 0) = None \<and> findChildByKind ex_heap 0 akind = Some 3 \<and>
   pnames (nodes ex_heap 3) = [''*''] \<and>
   list_all (\<lambda>m. findHandler m (nodes ex_heap 3) = None) methods \<and>
   found_chain (node_find ex_heap (Some 0) GET ''/'' (NewContext 1)) = Some (Inr [NotFoundHandler])"
proof -
  have h1: "find_loop ex_heap AtLoop (Some 0) ''/new'' 0 skind None [] (c_pvalues (NewContext 1))
       = Some (Inr (AtEnd (Some 1) [''''])) \<and>
     findHandler GET (nodes ex_heap 1) = None"
    and n1: "findChildByKind ex_heap 1 akind = None"
    by (simp_all add: exec_defs verbs find_loop.simps)
  have h2: "POST \<in> set methods \<and> POST \<noteq> GET \<and> findHandler POST (nodes ex_heap 1) \<noteq> None"
    by (simp add: exec_defs verbs)
  have h3: "find_loop ex_heap AtLoop (Some 0) ''/42'' 0 skind None [] (c_pvalues (NewContext 1))
       = Some (Inr (AtEnd (Some 2) [''42''])) \<and>
     findHandler GET (nodes ex_heap 2) = None"
    and n3: "findChildByKind ex_heap 2 akind = None"
    by (simp_all add: exec_defs verbs find_loop.simps)
  have h4: "list_all (\<lambda>m. findHandler m (nodes ex_heap 2) = None) methods"
    by (simp add: exec_defs verbs)
  have h5: "find_loop (heap static_dir_router) AtLoop (Some 0) ''/static/'' 0 skind None []
       (c_pvalues (NewContext 1)) = Some (Inr (AtEnd (Some 0) [''''])) \<and>
     findHandler GET (nodes (heap static_dir_router) 0) = None"
    and b5: "findChildByKind (heap static_dir_router) 0 akind = Some 1"
    and p5: "pnames (nodes (heap static_dir_router) 1) = [''*'']"
    and s5: "findHandler GET (nodes (heap static_dir_router) 1) = Some \<lparr>arr = 1, len = 1\<rparr>"
    by (simp_all add: static_dir_router_def exec_defs verbs find_loop.simps)
  have h6: "find_loop (heap post_dir_router) AtLoop (Some 0) ''/static/'' 0 skind None []
       (c_pvalues (NewContext 1)) = Some (Inr (AtEnd (Some 0) [''''])) \<and>
     findHandler GET (nodes (heap post_dir_router) 0) = None"
    and b6: "findChildByKind (heap post_dir_router) 0 akind = Some 1"
    and p6: "pnames (nodes (heap post_dir_router) 1) = [''*'']"
    and s6: "findHandler GET (nodes (heap post_dir_router) 1) = None"
    and e6: "findHandler POST (nodes (heap post_dir_router) 1) \<noteq> None"
    by (simp_all add: post_dir_router_def exec_defs verbs find_loop.simps)
  have h7: "find_loop ex_heap AtLoop (Some 0) ''/'' 0 skind None [] (c_pvalues (NewContext 1))
       = Some (Inr (AtEnd (Some 0) [''''])) \<and>
     findHandler GET (nodes ex_heap 0) = None"
    and b7: "findChildByKind ex_heap 0 akind = Some 3"
    and p7: "pnames (nodes ex_heap 3) = [''*'']"
    and s7: "list_all (\<lambda>m. findHandler m (nodes ex_heap 3) = None) methods"
    by (simp_all add: exec_defs verbs find_loop.simps)
  from h2 have e1: "\<exists>m \<in> set methods. m \<noteq> GET \<and> findHandler m (nodes ex_heap 1) \<noteq> None"
    by blast
  from h4 have u3: "\<forall>m \<in> set methods. findHandler m (nodes ex_heap 2) = None"
    by (simp add: list_all_iff)
  from h2 e6 have x6: "\<exists>m \<in> set methods. m \<noteq> GET \<and> findHandler m (nodes (heap post_dir_router) 1) \<noteq> None"
    by blast
  from s7 have u7: "\<forall>m \<in> set methods. findHandler m (nodes ex_heap 3) = None"
    by (simp add: list_all_iff)
  from s7 have g7: "findHandler GET (nodes ex_heap 3) = None"
    by (simp add: list_all_iff methods_def)
  have c1: "found_chain (node_find ex_heap (Some 0) GET ''/new'' (NewContext 1))
       = Some (Inr [MethodNotAllowedHandler])"
    using method_not_allowed_or_catch_all_child
      [of ex_heap "Some 0" "''/new''" "NewContext 1" 1 "['''']" GET] h1 n1 e1 by blast
  have c3: "found_chain (node_find ex_heap (Some 0) GET ''/42'' (NewContext 1))
       = Some (Inr [NotFoundHandler])"
    using method_not_allowed_or_catch_all_child
      [of ex_heap "Some 0" "''/42''" "NewContext 1" 2 "[''42'']" GET] h3 n3 u3 by blast
  have l5: "0 < length (pnames (nodes (heap static_dir_router) 1)) \<and>
      length (pnames (nodes (heap static_dir_router) 1)) \<le> length ['''']"
    using p5 by simp
  have c5: "\<exists>H' c'. node_find (heap static_dir_router) (Some 0) GET ''/static/'' (NewContext 1)
        = Some (Inr (H', c')) \<and>
      c_handlers c' = Some \<lparr>arr = 1, len = 1\<rparr> \<and> c_pnames c' = [''*'']"
    using method_not_allowed_or_catch_all_child
      [of "heap static_dir_router" "Some 0" "''/static/''" "NewContext 1" 0 "['''']" GET]
      h5 b5 l5 s5 p5 by fastforce
  have l6: "0 < length (pnames (nodes (heap post_dir_router) 1)) \<and>
      length (pnames (nodes (heap post_dir_router) 1)) \<le> length ['''']"
    using p6 by simp
  have c6: "found_chain (node_find (heap post_dir_router) (Some 0) GET ''/static/'' (NewContext 1))
       = Some (Inr [MethodNotAllowedHandler])"
    using method_not_allowed_or_catch_all_child
      [of "heap post_dir_router" "Some 0" "''/static/''" "NewContext 1" 0 "['''']" GET]
      h6 b6 l6 s6 x6 by blast
  have l7: "0 < length (pnames (nodes ex_heap 3)) \<and> length (pnames (nodes ex_heap 3)) \<le> length ['''']"
    using p7 by simp
  have c7: "found_chain (node_find ex_heap (Some 0) GET ''/'' (NewContext 1))
       = Some (Inr [NotFoundHandler])"
    using method_not_allowed_or_catch_all_child
      [of ex_heap "Some 0" "''/''" "NewContext 1" 0 "['''']" GET] h7 b7 l7 g7 u7 by blast
  from h1 n1 h2 h3 n3 h4 c1 c3 h5 b5 p5 s5 c5 h6 b6 p6 s6 e6 c6 h7 b7 p7 s7 c7
  show ?thesis by simp
qed

section \<open>Parameter slots\<close>

text \<open>
  C7 fails on the code. The routes \<^verbatim>\<open>"/:x/"\<close> and \<^verbatim>\<open>"/:x/a"\<close> reserve one parameter
  slot. The request GET \<^verbatim>\<open>/a/a/\<close> binds it, fails below and goes back to the root, where
  the guard for the taken slots (\<^verbatim>\<open>len(pvalues) == nc\<close>) says \<^verbatim>\<open>continue\<close>; the next
  mismatch makes the current node \<^verbatim>\<open>nil\<close> and jumps to \<^verbatim>\<open>Param\<close>, where the nil pointer
  is dereferenced. The lookup panics; it does not install the not-found chain.
\<close>

theorem slot_exhaustion_panics:
  "map_sum id maxParam
     (register_all grow NewRouter [(GET, ''/:x/'', h1, None), (GET, ''/:x/a'', h2, None)]) = Inr 1 \<and>
   lookup grow NewRouter [(GET, ''/:x/'', h1, None), (GET, ''/:x/a'', h2, None)] GET ''/a/a/''
     = Some (Inl NilPointerDereference)"
  by (simp add: exec_defs verbs find_loop.simps)

theorem slot_exhaustion_panics_witness:
  "lookup gc_grow NewRouter
     [(GET, ''/:x/'', UserHandler 1, None), (GET, ''/:x/a'', UserHandler 2, None)] GET ''/a/a/''
     = Some (Inl NilPointerDereference)"
  using slot_exhaustion_panics [of gc_grow "UserHandler 1" "UserHandler 2"] by simp

text \<open>
  The same guard can keep the lookup in the loop for ever: with the routes \<^verbatim>\<open>"/:x"\<close>
  and \<^verbatim>\<open>"/a:x/a"\<close>, the request GET \<^verbatim>\<open>/a/\<close> comes back to the root with the slot taken,
  and the \<^verbatim>\<open>continue\<close> of the guard and the mismatch at the root follow each other
  without end.
\<close>

lemma loop_router_facts:
  "register_all gc_grow NewRouter
     [(GET, ''/:x'', UserHandler 1, None), (GET, ''/a:x/a'', UserHandler 2, None)] = Inr loop_router"
  "maxParam loop_router = 1"
  "tree loop_router = Some 0"
  "label (nodes (heap loop_router) 0) = CHR ''/''"
  "prefix (nodes (heap loop_router) 0) = ''/''"
  "findChildByKind (heap loop_router) 0 pkind = Some 1"
  by (simp_all add: loop_router_def exec_defs verbs)

lemma in_cycle_step:
  assumes "in_cycle H pc n search nc nk nn ns pvalues"
  shows "\<exists>pc'. find_step H pc n search nc nk nn ns pvalues = Goto pc' n search nc nk nn ns pvalues \<and>
     in_cycle H pc' n search nc nk nn ns pvalues"
proof -
  from assms have fc: "findChildByKind H 0 pkind = Some 1"
    using loop_router_facts(6) by (simp add: findChildByKind_def in_cycle_def)
  from assms have lb: "label (nodes H 0) = CHR ''/''" "prefix (nodes H 0) = ''/''"
    using loop_router_facts by (simp_all add: in_cycle_def)
  from assms consider "pc = AtLoop" | "pc = AtParam" by (auto simp: in_cycle_def)
  then show ?thesis
  proof cases
    case 1
    with assms lb show ?thesis
      by (auto simp: in_cycle_def find_step_def step_Loop_def)
  next
    case 2
    with assms fc show ?thesis
      by (auto simp: in_cycle_def find_step_def step_Param_def)
  qed
qed

lemma cycle_never_ends:
  "find_loop H pc n search nc nk nn ns pvalues = Some y \<Longrightarrow>
   \<not> in_cycle H pc n search nc nk nn ns pvalues"
  apply (rule find_loop.raw_induct [where P = "\<lambda>H pc n search nc nk nn ns pvalues y.
      \<not> in_cycle H pc n search nc nk nn ns pvalues"])
  subgoal for f H pc n search nc nk nn ns pvalues y
    using in_cycle_step [of H pc n search nc nk nn ns pvalues] by auto
  apply assumption
  done

theorem slot_exhaustion_diverges:
  "lookup gc_grow NewRouter
     [(GET, ''/:x'', UserHandler 1, None), (GET, ''/a:x/a'', UserHandler 2, None)] GET ''/a/''
     = None"
proof -
  obtain H c where rc: "reset (heap loop_router) (NewContext (maxParam loop_router)) = (H, c)"
    by (cases "reset (heap loop_router) (NewContext (maxParam loop_router))")
  then have nH: "nodes H = nodes (heap loop_router)" and pv: "c_pvalues c = ['''']"
    by (auto simp: reset_def slice_lit_def NewContext_def loop_router_facts)
  have st: "find_loop H AtLoop (Some 0) ''/a/'' 0 skind None [] [''''] =
        find_loop H AtLoop (Some 0) ''a/'' 1 pkind (Some 0) ''a/'' ['''']"
    apply (subst find_loop.simps)
    apply (simp add: nH loop_router_def exec_defs verbs)
    apply (subst find_loop.simps)
    apply (simp add: nH loop_router_def exec_defs verbs)
    apply (subst find_loop.simps)
    apply (simp add: nH loop_router_def exec_defs verbs)
    apply (subst find_loop.simps)
    apply (simp add: nH loop_router_def exec_defs verbs)
    apply (subst find_loop.simps)
    apply (simp add: nH loop_router_def exec_defs verbs)
    apply (subst find_loop.simps)
    apply (simp add: nH loop_router_def exec_defs verbs)
    done
  have "in_cycle H AtLoop (Some 0) ''a/'' 1 pkind (Some 0) ''a/'' ['''']"
    by (simp add: in_cycle_def nH)
  then have "find_loop H AtLoop (Some 0) ''a/'' 1 pkind (Some 0) ''a/'' [''''] = None"
    using cycle_never_ends [of H AtLoop "Some 0" "''a/''" 1 pkind "Some 0" "''a/''" "['''']"]
    by (cases "find_loop H AtLoop (Some 0) ''a/'' 1 pkind (Some 0) ''a/'' ['''']") auto
  with st have "find_loop H AtLoop (Some 0) ''/a/'' 0 skind None [] [''''] = None"
    by simp
  then have "node_find H (Some 0) GET ''/a/'' c = None"
    by (simp add: node_find_def pv)
  with rc have "resolve loop_router GET ''/a/'' = None"
    by (simp add: resolve_def loop_router_facts(3))
  then show ?thesis
    by (simp only: lookup_def loop_router_facts(1) sum.case)
qed

section \<open>Registration errors\<close>

text \<open>The common prefix, and the branches of \<^verbatim>\<open>node.insert\<close> one by one.\<close>

lemma lcp_le: "lcp s p \<le> length s \<and> lcp s p \<le> length p"
  by (induction s p rule: lcp.induct) auto

lemma lcp_take: "take (lcp s p) s = take (lcp s p) p"
  by (induction s p rule: lcp.induct) auto

lemma lcp_neq: "lcp s p < length s \<Longrightarrow> lcp s p < length p \<Longrightarrow> s ! lcp s p \<noteq> p ! lcp s p"
  by (induction s p rule: lcp.induct) auto

lemma lcp_zero: "lcp s p = 0 \<longleftrightarrow> s = [] \<or> p = [] \<or> hd s \<noteq> hd p"
  by (induction s p rule: lcp.induct) auto

lemma lcp_append: "lcp (p @ r) p = length p"
  by (induction p) auto

lemma lcp_self: "lcp p p = length p"
  by (induction p) auto

lemma lcp_full: "lcp s p = length p \<Longrightarrow> s = p @ drop (length p) s"
  using lcp_take [of s p] lcp_le [of s p]
  by (metis append_take_drop_id take_all_iff order_refl)

lemma newNode_ne:
  "pre \<noteq> [] \<Longrightarrow> newNode t pre p c mh pp pn =
     Inr \<lparr>kind = t, label = hd pre, prefix = pre, parent = p, children = c,
          ppath = pp, pnames = pn, methodHandler = mh\<rparr>"
  by (cases pre) (auto simp: newNode_def)

lemma addHandler_fields [simp]:
  "kind (addHandler m h nd) = kind nd"
  "label (addHandler m h nd) = label nd"
  "prefix (addHandler m h nd) = prefix nd"
  "parent (addHandler m h nd) = parent nd"
  "children (addHandler m h nd) = children nd"
  "ppath (addHandler m h nd) = ppath nd"
  "pnames (addHandler m h nd) = pnames nd"
  by (simp_all add: addHandler_def Let_def)

text \<open>The node written at the current node in each branch.\<close>

lemma insert_loop_root:
  assumes "lcp q (prefix (nodes H a)) = 0" "q \<noteq> []"
  shows "insert_loop H a m q h t pp pn =
     Inr (set_node H a
        (if h \<noteq> None
         then (addHandler m h ((nodes H a)\<lparr>label := hd q, prefix := q, kind := t\<rparr>))
                \<lparr>ppath := pp, pnames := pn\<rparr>
         else (nodes H a)\<lparr>label := hd q, prefix := q\<rparr>))"
  using assms by (cases q; subst insert_loop.simps) (simp_all add: Let_def)

lemma insert_loop_split_parent:
  assumes "0 < lcp q (prefix (nodes H a))" "lcp q (prefix (nodes H a)) < length (prefix (nodes H a))"
    "lcp q (prefix (nodes H a)) = length q"
  shows "insert_loop H a m q h t pp pn =
     Inr (set_node
        (H\<lparr>nodes := (nodes H)(nnodes H :=
             \<lparr>kind = kind (nodes H a), label = hd (drop (length q) (prefix (nodes H a))),
              prefix = drop (length q) (prefix (nodes H a)), parent = Some a,
              children = children (nodes H a), ppath = ppath (nodes H a),
              pnames = pnames (nodes H a), methodHandler = methodHandler (nodes H a)\<rparr>),
           nnodes := Suc (nnodes H)\<rparr>) a
        ((addHandler m h ((nodes H a)\<lparr>kind := skind, label := hd (prefix (nodes H a)),
             prefix := take (length q) (prefix (nodes H a)), children := [],
             methodHandler := new_methodHandler, ppath := [], pnames := [],
             children := [nnodes H], kind := t\<rparr>))\<lparr>ppath := pp, pnames := pn\<rparr>))"
proof -
  from assms have "drop (length q) (prefix (nodes H a)) \<noteq> []" by simp
  with assms show ?thesis
    by (subst insert_loop.simps) (simp add: Let_def newNode_ne alloc_node_def addChild_def)
qed

lemma insert_loop_split_child:
  assumes "l = lcp q (prefix (nodes H a))" "0 < l" "l < length (prefix (nodes H a))" "l < length q"
  shows "insert_loop H a m q h t pp pn =
     Inr (set_node
        (H\<lparr>nodes := (nodes H)
            (nnodes H :=
             \<lparr>kind = kind (nodes H a), label = hd (drop l (prefix (nodes H a))),
              prefix = drop l (prefix (nodes H a)), parent = Some a,
              children = children (nodes H a), ppath = ppath (nodes H a),
              pnames = pnames (nodes H a), methodHandler = methodHandler (nodes H a)\<rparr>,
             Suc (nnodes H) :=
               addHandler m h \<lparr>kind = t, label = hd (drop l q), prefix = drop l q,
                 parent = Some a, children = [], ppath = pp, pnames = pn,
                 methodHandler = new_methodHandler\<rparr>),
           nnodes := Suc (Suc (nnodes H))\<rparr>) a
        ((nodes H a)\<lparr>kind := skind, label := hd (prefix (nodes H a)),
             prefix := take l (prefix (nodes H a)), children := [],
             methodHandler := new_methodHandler, ppath := [], pnames := [],
             children := [nnodes H, Suc (nnodes H)]\<rparr>))"
proof -
  from assms have "drop l (prefix (nodes H a)) \<noteq> []" "drop l q \<noteq> []" by simp_all
  with assms show ?thesis
    by (subst insert_loop.simps) (simp add: Let_def newNode_ne alloc_node_def addChild_def set_node_def)
qed

lemma insert_loop_new_child:
  assumes "lcp q (prefix (nodes H a)) = length (prefix (nodes H a))" "prefix (nodes H a) \<noteq> []"
    "length (prefix (nodes H a)) < length q"
    "findChildWithLabel H a (hd (drop (length (prefix (nodes H a))) q)) = None"
  shows "insert_loop H a m q h t pp pn =
     Inr (set_node
        (H\<lparr>nodes := (nodes H)
            (nnodes H :=
               addHandler m h \<lparr>kind = t, label = hd (drop (length (prefix (nodes H a))) q),
                 prefix = drop (length (prefix (nodes H a))) q,
                 parent = Some a, children = [], ppath = pp, pnames = pn,
                 methodHandler = new_methodHandler\<rparr>),
           nnodes := Suc (nnodes H)\<rparr>) a
        ((nodes H a)\<lparr>children := children (nodes H a) @ [nnodes H]\<rparr>))"
proof -
  from assms have "drop (length (prefix (nodes H a))) q \<noteq> []" by simp
  with assms show ?thesis
    by (subst insert_loop.simps) (simp add: Let_def newNode_ne alloc_node_def addChild_def)
qed

lemma insert_loop_descend:
  assumes "lcp q (prefix (nodes H a)) = length (prefix (nodes H a))" "prefix (nodes H a) \<noteq> []"
    "length (prefix (nodes H a)) < length q"
    "findChildWithLabel H a (hd (drop (length (prefix (nodes H a))) q)) = Some c"
  shows "insert_loop H a m q h t pp pn =
     insert_loop H c m (drop (length (prefix (nodes H a))) q) h t pp pn"
  using assms by (subst insert_loop.simps) (simp add: Let_def)

lemma insert_loop_exists:
  assumes "q = prefix (nodes H a)" "q \<noteq> []"
  shows "insert_loop H a m q h t pp pn =
     (if h \<noteq> None
      then Inr (set_node H a ((addHandler m h (nodes H a))
          \<lparr>ppath := pp, pnames := (if length (pnames (nodes H a)) = 0 then pn
                                      else pnames (nodes H a))\<rparr>))
      else Inr H)"
  using assms by (subst insert_loop.simps) (simp add: Let_def lcp_self)

text \<open>\<^verbatim>\<open>node.insert\<close> returns for every non-empty search string.\<close>

lemma insert_loop_total:
  "q \<noteq> [] \<Longrightarrow> \<exists>H'. insert_loop H a m q h t pp pn = Inr H'"
proof (induction "length q" arbitrary: a q rule: less_induct)
  case less
  let ?pre = "prefix (nodes H a)"
  let ?l = "lcp q ?pre"
  note qne = \<open>q \<noteq> []\<close>
  have le: "?l \<le> length q" "?l \<le> length ?pre" using lcp_le by auto
  consider (r) "?l = 0" | (s) "0 < ?l" "?l < length ?pre"
    | (d) "0 < ?l" "?l = length ?pre" "?l < length q"
    | (e) "0 < ?l" "?l = length ?pre" "?l = length q"
    using le by linarith
  then show ?case
  proof cases
    case r
    from insert_loop_root [OF r qne] show ?thesis by blast
  next
    case s
    show ?thesis
    proof (cases "?l = length q")
      case True
      from insert_loop_split_parent [OF s True] show ?thesis by blast
    next
      case False
      with le have lt: "?l < length q" by simp
      from insert_loop_split_child [OF refl s lt] show ?thesis by blast
    qed
  next
    case d
    then have ne: "?pre \<noteq> []" and lt: "length ?pre < length q" by auto
    show ?thesis
    proof (cases "findChildWithLabel H a (hd (drop (length ?pre) q))")
      case None
      from insert_loop_new_child [OF d(2) ne lt None] show ?thesis by blast
    next
      case (Some c)
      have "\<exists>H'. insert_loop H c m (drop (length ?pre) q) h t pp pn = Inr H'"
        by (rule less.hyps) (use lt ne in \<open>cases "prefix (nodes H a)"; simp\<close>)+
      with insert_loop_descend [OF d(2) ne lt Some, of m h t pp pn] show ?thesis by simp
    qed
  next
    case e
    then have qp: "q = ?pre" using lcp_full [of q ?pre] by auto
    from insert_loop_exists [OF qp qne, of m h t pp pn] show ?thesis by (cases "h = None") auto
  qed
qed


lemma Router_insert_ok:
  assumes "m \<in> set methods" "tree r \<noteq> None" "q \<noteq> []"
  shows "\<exists>r'. Router_insert r m q h t pp pn = Inr r' \<and> tree r' = tree r"
proof -
  from assms(2) obtain a where a: "tree r = Some a" by auto
  from insert_loop_total [OF assms(3)] obtain H'
    where "insert_loop (heap r) a m q h t pp pn = Inr H'" by blast
  with assms(1) a show ?thesis by (simp add: Router_insert_def node_insert_def)
qed

lemma Router_insert_unknown:
  "m \<notin> set methods \<Longrightarrow> Router_insert r m q h t pp pn = Inl (Panic ''chef: invalid method'')"
  by (simp add: Router_insert_def)

text \<open>The branches of the loop of \<^verbatim>\<open>Router.add\<close>.\<close>

lemma add_loop_end:
  assumes "\<not> i < length path'"
  shows "add_loop r m path' i pn pp handlers = Router_insert r m path' handlers skind pp pn"
  by (subst add_loop.simps) (simp only: assms if_False)

lemma add_loop_other:
  assumes "i < length path'" "path' ! i \<noteq> CHR '':''" "path' ! i \<noteq> CHR ''*''"
  shows "add_loop r m path' i pn pp handlers = add_loop r m path' (i + 1) pn pp handlers"
  by (subst add_loop.simps) (simp only: assms if_True if_False)

lemma add_loop_star:
  assumes "i < length path'" "path' ! i = CHR ''*''"
  shows "add_loop r m path' i pn pp handlers =
     (case Router_insert r m (take i path') None skind [] [] of
        Inl e \<Rightarrow> Inl e
      | Inr r1 \<Rightarrow> Router_insert r1 m (take (i + 1) path') handlers akind pp (pn @ [''*'']))"
proof -
  have "CHR ''*'' \<noteq> CHR '':''" by simp
  then show ?thesis
    by (subst add_loop.simps) (simp only: assms if_True if_False refl)
qed

lemma add_loop_colon:
  assumes "i < length path'" "path' ! i = CHR '':''"
  shows "add_loop r m path' i pn pp handlers =
     (case Router_insert r m (take i path') None skind [] [] of
        Inl e \<Rightarrow> Inl e
      | Inr r1 \<Rightarrow>
          (if i + 1 = length (take (i + 1) path' @
                drop (i + length (takeWhile (\<lambda>c. c \<noteq> CHR ''/'') (drop i path'))) path')
           then Router_insert r1 m
                  (take (i + 1) (take (i + 1) path' @
                     drop (i + length (takeWhile (\<lambda>c. c \<noteq> CHR ''/'') (drop i path'))) path'))
                  handlers pkind pp
                  (pn @ [take (i + length (takeWhile (\<lambda>c. c \<noteq> CHR ''/'') (drop i path')) - (i + 1))
                           (drop (i + 1) path')])
           else
             (case Router_insert r1 m
                  (take (i + 1) (take (i + 1) path' @
                     drop (i + length (takeWhile (\<lambda>c. c \<noteq> CHR ''/'') (drop i path'))) path'))
                  None pkind pp
                  (pn @ [take (i + length (takeWhile (\<lambda>c. c \<noteq> CHR ''/'') (drop i path')) - (i + 1))
                           (drop (i + 1) path')]) of
                Inl e \<Rightarrow> Inl e
              | Inr r2 \<Rightarrow>
                  add_loop r2 m
                    (take (i + 1) path' @
                       drop (i + length (takeWhile (\<lambda>c. c \<noteq> CHR ''/'') (drop i path'))) path')
                    (i + 1 + 1)
                    (pn @ [take (i + length (takeWhile (\<lambda>c. c \<noteq> CHR ''/'') (drop i path')) - (i + 1))
                             (drop (i + 1) path')])
                    pp handlers)))"
  by (subst add_loop.simps) (simp only: assms if_True Let_def refl)

lemma add_loop_unknown:
  "m \<notin> set methods \<Longrightarrow> add_loop r m path' i pn pp handlers = Inl (Panic ''chef: invalid method'')"
proof (induction r m path' i pn pp handlers rule: add_loop.induct)
  case (1 r m path' i pn pp handlers)
  note u = Router_insert_unknown [OF "1.prems"]
  show ?case
  proof (cases "i < length path'")
    case False
    show ?thesis by (simp only: add_loop_end [OF False] u)
  next
    case lt: True
    consider (colon) "path' ! i = CHR '':''" | (star) "path' ! i = CHR ''*''"
      | (other) "path' ! i \<noteq> CHR '':''" "path' ! i \<noteq> CHR ''*''" by blast
    then show ?thesis
    proof cases
      case colon
      show ?thesis by (simp only: add_loop_colon [OF lt colon] u sum.case)
    next
      case star
      show ?thesis by (simp only: add_loop_star [OF lt star] u sum.case)
    next
      case other
      from "1.IH"(2) [OF lt other "1.prems"] show ?thesis
        by (simp only: add_loop_other [OF lt other])
    qed
  qed
qed

lemma add_loop_ok:
  assumes "m \<in> set methods" "tree r \<noteq> None" "path' \<noteq> []"
    "i = 0 \<longrightarrow> path' ! 0 \<noteq> CHR '':'' \<and> path' ! 0 \<noteq> CHR ''*''"
  shows "\<exists>r'. add_loop r m path' i pn pp handlers = Inr r' \<and> tree r' = tree r"
  using assms
proof (induction r m path' i pn pp handlers rule: add_loop.induct)
  case (1 r m path' i pn pp handlers)
  note m = "1.prems"(1) and tr = "1.prems"(2) and ne = "1.prems"(3) and i0 = "1.prems"(4)
  show ?case
  proof (cases "i < length path'")
    case False
    from Router_insert_ok [OF m tr ne, of handlers skind pp pn] show ?thesis
      by (simp only: add_loop_end [OF False])
  next
    case lt: True
    consider (colon) "path' ! i = CHR '':''" | (star) "path' ! i = CHR ''*''"
      | (other) "path' ! i \<noteq> CHR '':''" "path' ! i \<noteq> CHR ''*''" by blast
    then show ?thesis
    proof cases
      case colon
      with i0 have ip: "0 < i" by (cases i) auto
      let ?j = "i + 1"
      let ?i' = "i + length (takeWhile (\<lambda>c. c \<noteq> CHR ''/'') (drop i path'))"
      let ?pn' = "pn @ [take (?i' - ?j) (drop ?j path')]"
      let ?path'' = "take ?j path' @ drop ?i' path'"
      from ip lt have t1: "take i path' \<noteq> []" by auto
      from Router_insert_ok [OF m tr t1, of None skind "[]" "[]"] obtain r1
        where r1: "Router_insert r m (take i path') None skind [] [] = Inr r1"
          and tr1: "tree r1 = tree r" by blast
      from tr tr1 have tr1': "tree r1 \<noteq> None" by simp
      from lt have t2: "take ?j ?path'' \<noteq> []" by auto
      show ?thesis
      proof (cases "?j = length ?path''")
        case True
        from Router_insert_ok [OF m tr1' t2, of handlers pkind pp ?pn'] obtain r2
          where r2: "Router_insert r1 m (take ?j ?path'') handlers pkind pp ?pn' = Inr r2"
            and tr2: "tree r2 = tree r1" by blast
        have "add_loop r m path' i pn pp handlers = Inr r2"
          by (simp only: add_loop_colon [OF lt colon] r1 sum.case True [symmetric] if_True r2 refl)
        with tr1 tr2 show ?thesis by simp
      next
        case False
        from Router_insert_ok [OF m tr1' t2, of None pkind pp ?pn'] obtain r2
          where r2: "Router_insert r1 m (take ?j ?path'') None pkind pp ?pn' = Inr r2"
            and tr2: "tree r2 = tree r1" by blast
        from tr1' tr2 have tr2': "tree r2 \<noteq> None" by simp
        from lt have ne2: "?path'' \<noteq> []" by auto
        from "1.IH"(1) [OF lt colon refl r1 refl refl refl False r2 m tr2' ne2]
        obtain r' where r': "add_loop r2 m ?path'' (?j + 1) ?pn' pp handlers = Inr r'"
          and tr': "tree r' = tree r2" by auto
        have "add_loop r m path' i pn pp handlers = Inr r'"
          by (simp only: add_loop_colon [OF lt colon] r1 sum.case False if_False r2 r')
        with tr1 tr2 tr' show ?thesis by simp
      qed
    next
      case star
      with i0 have ip: "0 < i" by (cases i) auto
      from ip lt have t1: "take i path' \<noteq> []" by auto
      from Router_insert_ok [OF m tr t1, of None skind "[]" "[]"] obtain r1
        where r1: "Router_insert r m (take i path') None skind [] [] = Inr r1"
          and tr1: "tree r1 = tree r" by blast
      from tr tr1 have tr1': "tree r1 \<noteq> None" by simp
      from lt have t2: "take (i + 1) path' \<noteq> []" by auto
      from Router_insert_ok [OF m tr1' t2, of handlers akind pp "pn @ [''*'']"] obtain r2
        where r2: "Router_insert r1 m (take (i + 1) path') handlers akind pp (pn @ [''*'']) = Inr r2"
          and tr2: "tree r2 = tree r1" by blast
      have "add_loop r m path' i pn pp handlers = Inr r2"
        by (simp only: add_loop_star [OF lt star] r1 sum.case r2)
      with tr1 tr2 show ?thesis by simp
    next
      case other
      from "1.IH"(2) [OF lt other m tr ne] obtain r'
        where "add_loop r m path' (i + 1) pn pp handlers = Inr r'" and "tree r' = tree r" by auto
      then show ?thesis by (simp only: add_loop_other [OF lt other]) simp
    qed
  qed
qed

lemma Router_add_ok:
  assumes "m \<in> set methods" "tree r \<noteq> None" "path' \<noteq> []"
  shows "\<exists>r'. Router_add grow r m path' h hs = Inr r' \<and> tree r' = tree r"
proof -
  obtain handlers H where ah: "add_handlers grow r h hs = (handlers, H)"
    by (cases "add_handlers grow r h hs")
  let ?p = "if hd path' \<noteq> CHR ''/'' then CHR ''/'' # path' else path'"
  from assms(3) have p: "?p \<noteq> []" "0 = (0::nat) \<longrightarrow> ?p ! 0 \<noteq> CHR '':'' \<and> ?p ! 0 \<noteq> CHR ''*''"
    by (auto simp: hd_conv_nth)
  from assms(2) have "tree (r\<lparr>heap := H\<rparr>) \<noteq> None" by simp
  from add_loop_ok [OF assms(1) this p, of "[]" ?p handlers] assms(3) ah
  show ?thesis by (simp add: Router_add_def Let_def)
qed

lemma Router_add_unknown:
  assumes "m \<notin> set methods" "path' \<noteq> []"
  shows "Router_add grow r m path' h hs = Inl (Panic ''chef: invalid method'')"
  using assms by (simp add: Router_add_def Let_def add_loop_unknown split: prod.splits)

text \<open>
  C8. On a router with a tree, \<^verbatim>\<open>Router.add\<close> panics exactly when the path is empty or
  the method token is not one of the nine verbs: in the first case with
  \<^verbatim>\<open>"chef: path cannot be empty"\<close>, in the second with the panic of \<^verbatim>\<open>Router.insert\<close>,
  before any node is written. A panic returns no router, and it ends the registration of
  a list of routes: with such a route in the list, \<^verbatim>\<open>register_all\<close> returns the panic.
  For a non-empty path and a known verb nothing panics, since \<^verbatim>\<open>node.insert\<close> is only
  ever called with a non-empty search string.
\<close>

theorem registration_panics:
  "(tree r \<noteq> None \<longrightarrow>
      ((\<exists>e. Router_add grow r m path' h hs = Inl e) \<longleftrightarrow> path' = [] \<or> m \<notin> set methods)) \<and>
   (path' = [] \<longrightarrow> Router_add grow r m path' h hs = Inl (Panic ''chef: path cannot be empty'')) \<and>
   (path' \<noteq> [] \<and> m \<notin> set methods \<longrightarrow>
      Router_add grow r m path' h hs = Inl (Panic ''chef: invalid method'')) \<and>
   ((path' = [] \<or> m \<notin> set methods) \<and> (m, path', h, hs) \<in> set routes \<longrightarrow>
      (\<exists>e. register_all grow r routes = Inl e))"
proof (intro conjI impI)
  assume tr: "tree r \<noteq> None"
  show "(\<exists>e. Router_add grow r m path' h hs = Inl e) \<longleftrightarrow> path' = [] \<or> m \<notin> set methods"
  proof
    assume "\<exists>e. Router_add grow r m path' h hs = Inl e"
    with Router_add_ok [OF _ tr, of m path' grow h hs] show "path' = [] \<or> m \<notin> set methods"
      by auto
  next
    assume "path' = [] \<or> m \<notin> set methods"
    then show "\<exists>e. Router_add grow r m path' h hs = Inl e"
      using Router_add_unknown [of m path' grow r h hs] by (auto simp: Router_add_def)
  qed
next
  assume "path' = []"
  then show "Router_add grow r m path' h hs = Inl (Panic ''chef: path cannot be empty'')"
    by (simp add: Router_add_def)
next
  assume "path' \<noteq> [] \<and> m \<notin> set methods"
  then show "Router_add grow r m path' h hs = Inl (Panic ''chef: invalid method'')"
    by (simp add: Router_add_unknown)
next
  assume a: "(path' = [] \<or> m \<notin> set methods) \<and> (m, path', h, hs) \<in> set routes"
  then have bad: "\<And>r. \<exists>e. Router_add grow r m path' h hs = Inl e"
    using Router_add_unknown [of m path' grow _ h hs] by (auto simp: Router_add_def)
  from a have "(m, path', h, hs) \<in> set routes" by simp
  then show "\<exists>e. register_all grow r routes = Inl e"
  proof (induction routes arbitrary: r)
    case Nil
    then show ?case by simp
  next
    case (Cons x routes)
    obtain m2 p2 h2 hs2 where x: "x = (m2, p2, h2, hs2)" by (cases x)
    show ?case
    proof (cases "Router_add grow r m2 p2 h2 hs2")
      case (Inl e)
      with x show ?thesis by simp
    next
      case (Inr r')
      with bad [of r] x have "x \<noteq> (m, path', h, hs)" by auto
      with Cons.prems have "(m, path', h, hs) \<in> set routes" by simp
      from Cons.IH [OF this, of r'] Inr x show ?thesis by simp
    qed
  qed
qed

theorem registration_panics_witness:
  "tree NewRouter \<noteq> None \<and> ''FOO'' \<notin> set methods \<and> GET \<in> set methods \<and>
   Router_add gc_grow NewRouter ''FOO'' ''/x'' (UserHandler 1) None
     = Inl (Panic ''chef: invalid method'') \<and>
   Router_add gc_grow NewRouter GET [] (UserHandler 1) None
     = Inl (Panic ''chef: path cannot be empty'') \<and>
   (\<nexists>e. Router_add gc_grow NewRouter GET ''/x'' (UserHandler 1) None = Inl e) \<and>
   (\<exists>e. register_all gc_grow NewRouter
      [(GET, ''/a'', UserHandler 1, None), (''FOO'', ''/x'', UserHandler 1, None)] = Inl e)"
proof -
  have h: "tree NewRouter \<noteq> None" "''FOO'' \<notin> set methods" "GET \<in> set methods"
    by (simp_all add: NewRouter_def methods_def verbs)
  have i: "(''FOO'', ''/x'', UserHandler 1, None) \<in>
      set [(GET, ''/a'', UserHandler 1, None), (''FOO'', ''/x'', UserHandler 1, None)]"
    by simp
  from registration_panics [of NewRouter gc_grow "''FOO''" "''/x''" "UserHandler 1" None
      "[(GET, ''/a'', UserHandler 1, None), (''FOO'', ''/x'', UserHandler 1, None)]"] h i
  have c1: "Router_add gc_grow NewRouter ''FOO'' ''/x'' (UserHandler 1) None
       = Inl (Panic ''chef: invalid method'')"
    and c4: "\<exists>e. register_all gc_grow NewRouter
      [(GET, ''/a'', UserHandler 1, None), (''FOO'', ''/x'', UserHandler 1, None)] = Inl e"
    by simp_all
  from registration_panics [of NewRouter gc_grow GET "[]" "UserHandler 1" None "[]"]
  have c2: "Router_add gc_grow NewRouter GET [] (UserHandler 1) None
       = Inl (Panic ''chef: path cannot be empty'')" by simp
  from registration_panics [of NewRouter gc_grow GET "''/x''" "UserHandler 1" None "[]"] h
  have c3: "\<nexists>e. Router_add gc_grow NewRouter GET ''/x'' (UserHandler 1) None = Inl e" by simp
  from h c1 c2 c3 c4 show ?thesis by simp
qed

section \<open>Handler chains\<close>

text \<open>
  C10 fails on the code. \<^verbatim>\<open>Router.add\<close> starts the chain of a route from the slice
  \<^verbatim>\<open>r.middlewares\<close> itself and appends to it. When that slice has spare capacity, the
  handler is written into the backing array of \<^verbatim>\<open>r.middlewares\<close>, and the chains of all
  routes share that array: the next registration overwrites the handler of the previous
  one. After three calls of \<^verbatim>\<open>Use\<close> with one middleware each (capacity 4 under the
  growth rule of the Go runtime), the chain stored for \<^verbatim>\<open>"/a"\<close> ends in the handler of
  \<^verbatim>\<open>"/b"\<close>.
\<close>

theorem shared_chain_overwritten:
  "found_chain
     (lookup gc_grow
        (Chef_Use gc_grow (Chef_Use gc_grow (Chef_Use gc_grow NewRouter [UserHandler 1])
           [UserHandler 2]) [UserHandler 3])
        [(GET, ''/a'', UserHandler 10, None), (GET, ''/b'', UserHandler 11, None)] GET ''/a'')
     = Some (Inr [UserHandler 1, UserHandler 2, UserHandler 3, UserHandler 11])"
  by (simp add: exec_defs verbs find_loop.simps)

end
